theory Spec2Isabelle
  imports Main
begin

section \<open>Coordinator-side consistency core of the storage proxy\<close>

text \<open>
  A shallow embedding of the parts of \<^verbatim>\<open>service/storage_proxy.cc\<close> that decide the
  replica arithmetic of lightweight transactions, the write response handlers, the digest
  read resolver, read reconciliation and the Paxos coordinator. Sizes (\<^verbatim>\<open>size_t\<close>) are
  natural numbers: they count elements of in-memory vectors and never get near
  \<open>2 ^ 64\<close>. Where the source computes on \<^verbatim>\<open>uint64_t\<close> values that a caller chooses
  (row limits), the wrap-around is written out.
\<close>

subsection \<open>Shared data\<close>

type_synonym inet_address = nat

datatype consistency_level =
  ANY | ONE | TWO | THREE | QUORUM | ALL | LOCAL_QUORUM | EACH_QUORUM
  | SERIAL | LOCAL_SERIAL | LOCAL_ONE

subsection \<open>\<^verbatim>\<open>storage_proxy::get_paxos_participants\<close>\<close>

text \<open>
  What the function reads from its collaborators: the natural endpoints of the token
  (without a node being replaced), the pending endpoints, the gossiper's liveness
  predicate, the snitch's \<^verbatim>\<open>db::is_local\<close> and the proximity sort.
\<close>

record topology =
  natural_endpoints :: "inet_address list"
  pending_endpoints :: "inet_address list"
  is_alive :: "inet_address \<Rightarrow> bool"
  is_local :: "inet_address \<Rightarrow> bool"
  sort_endpoints_by_proximity :: "inet_address list \<Rightarrow> inet_address list"

text \<open>
  The two constructors of \<^verbatim>\<open>exceptions::unavailable_exception\<close> the function uses:
  \<open>(cl, required, alive)\<close>, and the one with a message, which here carries the number of
  pending range movements that the message prints.
\<close>

datatype unavailable_exception =
  Unavailable consistency_level nat nat
  | Unavailable_pending nat consistency_level nat nat

record paxos_participants =
  endpoints :: "inet_address list"
  required_participants :: nat
  has_dead_endpoints :: bool

definition paxos_natural :: "topology \<Rightarrow> consistency_level \<Rightarrow> inet_address list" where
  "paxos_natural T cl_for_paxos =
     (if cl_for_paxos = LOCAL_SERIAL then filter (is_local T) (natural_endpoints T)
      else natural_endpoints T)"

definition paxos_pending :: "topology \<Rightarrow> consistency_level \<Rightarrow> inet_address list" where
  "paxos_pending T cl_for_paxos =
     (let pending = (if cl_for_paxos = LOCAL_SERIAL then filter (is_local T) (pending_endpoints T)
                     else pending_endpoints T)
      in filter (\<lambda>p. p \<notin> set (paxos_natural T cl_for_paxos)) pending)"

definition paxos_live :: "topology \<Rightarrow> consistency_level \<Rightarrow> inet_address list" where
  "paxos_live T cl_for_paxos =
     filter (is_alive T) (paxos_natural T cl_for_paxos @ paxos_pending T cl_for_paxos)"

definition get_paxos_participants ::
  "topology \<Rightarrow> consistency_level \<Rightarrow> unavailable_exception + paxos_participants" where
  "get_paxos_participants T cl_for_paxos =
     (let natural = paxos_natural T cl_for_paxos;
          pending = paxos_pending T cl_for_paxos;
          participants = length pending + length natural;
          quorum_size = length natural div 2 + 1;
          required = quorum_size + length pending;
          live_endpoints = paxos_live T cl_for_paxos
      in if length live_endpoints < required
         then Inl (Unavailable cl_for_paxos required (length live_endpoints))
         else if length pending > 1
         then Inl (Unavailable_pending (length pending) cl_for_paxos (participants + 1)
                     (length live_endpoints))
         else Inr \<lparr>endpoints = sort_endpoints_by_proximity T live_endpoints,
                   required_participants = required,
                   has_dead_endpoints = (participants \<noteq> length live_endpoints)\<rparr>)"

text \<open>A cluster of three natural replicas with nodes joining, used in examples.\<close>

definition joining_cluster :: "inet_address list \<Rightarrow> (inet_address \<Rightarrow> bool) \<Rightarrow> topology" where
  "joining_cluster pending alive =
     \<lparr>natural_endpoints = [1, 2, 3], pending_endpoints = pending, is_alive = alive,
      is_local = (\<lambda>_. True), sort_endpoints_by_proximity = (\<lambda>xs. xs)\<rparr>"

subsection \<open>Exceptions and futures\<close>

datatype write_type = SIMPLE | BATCH | UNLOGGED_BATCH | COUNTER | BATCH_LOG | CAS | VIEW | CDC

text \<open>
  The exceptions the coordinator hands to its callers. The keyspace and table names they
  also carry are constant for a handler and left out. The write exceptions carry
  \<open>(cl, received, block_for, type)\<close> and \<open>(cl, received, failures, block_for, type)\<close>,
  the read ones \<open>(cl, received, block_for, data_present)\<close> and
  \<open>(cl, received, failures, block_for, data_present)\<close>.
\<close>

datatype exn =
  mutation_write_timeout_exception consistency_level nat nat write_type
  | mutation_write_failure_exception consistency_level nat nat nat write_type
  | read_timeout_exception consistency_level nat nat bool
  | read_failure_exception consistency_level nat nat nat bool
  | runtime_error string
  | other_exception nat

text \<open>
  A seastar promise/future pair, seen from the future's side. Setting a promise a second
  time is a contract violation in seastar; the model records it as \<open>Double_set\<close> so
  that "fired at most once" is a property to prove and not an assumption.
\<close>

datatype 'a future = Pending | Ready 'a | Failed exn | Double_set

definition set_value :: "'a \<Rightarrow> 'a future \<Rightarrow> 'a future" where
  "set_value v f = (case f of Pending \<Rightarrow> Ready v | _ \<Rightarrow> Double_set)"

definition set_exception :: "exn \<Rightarrow> 'a future \<Rightarrow> 'a future" where
  "set_exception e f = (case f of Pending \<Rightarrow> Failed e | _ \<Rightarrow> Double_set)"

subsection \<open>Ballots and proposals\<close>

text \<open>
  Modelled from the spec: \<^verbatim>\<open>utils::UUID\<close> and \<^verbatim>\<open>utils::UUID_gen\<close> are not part of
  the sources at hand. The spec calls a ballot "a unique, time-ordered identifier": the
  model keeps the timestamp in microseconds and the random bits that make it unique.
  \<^verbatim>\<open>timestamp()\<close> orders ballots by that time; \<^verbatim>\<open>micros_timestamp\<close> reads it back.
\<close>

record UUID =
  micros :: int
  random_bits :: nat

definition get_random_time_UUID_from_micros :: "int \<Rightarrow> nat \<Rightarrow> UUID" where
  "get_random_time_UUID_from_micros m r = \<lparr>micros = m, random_bits = r\<rparr>"

definition micros_timestamp :: "UUID \<Rightarrow> int" where
  "micros_timestamp u = micros u"

definition timestamp :: "UUID \<Rightarrow> int" where
  "timestamp u = micros u"

definition min_time_UUID :: UUID where
  "min_time_UUID = \<lparr>micros = 0, random_bits = 0\<rparr>"

type_synonym frozen_mutation = nat

record proposal =
  ballot :: UUID
  update :: frozen_mutation

text \<open>
  Modelled from the spec: \<^verbatim>\<open>paxos/proposal.hh\<close> is absent; proposals are ordered by the
  time of their ballot ("most recently accepted"). The comparison of two
  \<^verbatim>\<open>std::optional<proposal>\<close> puts the empty one below every proposal.
\<close>

definition proposal_gt :: "proposal \<Rightarrow> proposal \<Rightarrow> bool" where
  "proposal_gt a b = (timestamp (ballot a) > timestamp (ballot b))"

definition optional_proposal_gt :: "proposal option \<Rightarrow> proposal option \<Rightarrow> bool" where
  "optional_proposal_gt a b =
     (case a of None \<Rightarrow> False
      | Some x \<Rightarrow> (case b of None \<Rightarrow> True | Some y \<Rightarrow> proposal_gt x y))"

subsection \<open>\<^verbatim>\<open>paxos_response_handler\<close>\<close>

text \<open>
  The fields of the handler the coordinator reads:
  the consistency level of the Paxos phases, the required number of participants and the
  live endpoints, both as \<^verbatim>\<open>get_paxos_participants\<close> returned them.
\<close>

record paxos_response_handler =
  cl_for_paxos :: consistency_level
  prh_required_participants :: nat
  live_endpoints :: "inet_address list"

subsection \<open>\<^verbatim>\<open>paxos_response_handler::accept_proposal\<close>\<close>

text \<open>
  What one peer answers to an accept request: a value (\<open>accepted\<close> or not), a timeout
  exception, or any other exception.
\<close>

datatype accept_reply = Accept_value bool | Accept_timeout | Accept_error

record accept_request_tracker =
  a_p :: bool
  a_future :: "bool future"
  accepts :: nat
  rejects :: nat
  a_errors :: nat
  cas_write_timeout_due_to_uncertainty :: nat

definition all_replies :: "accept_request_tracker \<Rightarrow> nat" where
  "all_replies t = accepts t + rejects t + a_errors t"

definition non_accept_replies :: "accept_request_tracker \<Rightarrow> nat" where
  "non_accept_replies t = rejects t + a_errors t"

definition non_error_replies :: "accept_request_tracker \<Rightarrow> nat" where
  "non_error_replies t = accepts t + rejects t"

definition a_set_value :: "bool \<Rightarrow> accept_request_tracker \<Rightarrow> accept_request_tracker" where
  "a_set_value v t =
     t\<lparr>a_future := (if a_p t then set_value v (a_future t) else Double_set), a_p := False\<rparr>"

definition a_set_exception :: "exn \<Rightarrow> accept_request_tracker \<Rightarrow> accept_request_tracker" where
  "a_set_exception e t =
     t\<lparr>a_future := (if a_p t then set_exception e (a_future t) else Double_set), a_p := False\<rparr>"

definition accept_request_tracker_init :: accept_request_tracker where
  "accept_request_tracker_init =
     \<lparr>a_p = True, a_future = Pending, accepts = 0, rejects = 0, a_errors = 0,
      cas_write_timeout_due_to_uncertainty = 0\<rparr>"

text \<open>The body of \<^verbatim>\<open>handle_one_msg\<close> once the peer's answer is there.\<close>

definition accept_handle_one_msg ::
  "paxos_response_handler \<Rightarrow> bool \<Rightarrow> accept_reply \<Rightarrow> accept_request_tracker
     \<Rightarrow> accept_request_tracker" where
  "accept_handle_one_msg h timeout_if_partially_accepted r t0 =
     (let is_timeout = (r = Accept_timeout \<and> a_p t0);
          accepted = (case r of Accept_value b \<Rightarrow> Some b | _ \<Rightarrow> None);
          t1 = (if r = Accept_error \<and> a_p t0 then t0\<lparr>a_errors := a_errors t0 + 1\<rparr> else t0)
      in if \<not> a_p t1 then t1
         else
           let t = (case accepted of
                      None \<Rightarrow> t1
                    | Some True \<Rightarrow> t1\<lparr>accepts := accepts t1 + 1\<rparr>
                    | Some False \<Rightarrow> t1\<lparr>rejects := rejects t1 + 1\<rparr>);
               required = prh_required_participants h;
               live = length (live_endpoints h)
           in if accepts t = required then a_set_value True t
              else if is_timeout then
                a_set_exception (mutation_write_timeout_exception (cl_for_paxos h)
                                   (non_error_replies t) required CAS) t
              else if required + a_errors t > live then
                a_set_exception (mutation_write_failure_exception (cl_for_paxos h)
                                   (non_error_replies t) (a_errors t) required CAS) t
              else if required + non_accept_replies t > live \<and> \<not> timeout_if_partially_accepted
              then a_set_value False t
              else if all_replies t = live then
                (if accepts t = 0 \<and> a_errors t = 0 then a_set_value False t
                 else a_set_exception (mutation_write_timeout_exception (cl_for_paxos h)
                                         (accepts t) required CAS)
                        (t\<lparr>cas_write_timeout_due_to_uncertainty :=
                             cas_write_timeout_due_to_uncertainty t + 1\<rparr>))
              else t)"

text \<open>
  The replies come in, in some order, one per live endpoint; the caller sees the future.
\<close>

definition accept_run ::
  "paxos_response_handler \<Rightarrow> bool \<Rightarrow> accept_reply list \<Rightarrow> accept_request_tracker" where
  "accept_run h timeout_if_partially_accepted rs =
     foldl (\<lambda>t r. accept_handle_one_msg h timeout_if_partially_accepted r t)
       accept_request_tracker_init rs"

definition accept_proposal ::
  "paxos_response_handler \<Rightarrow> bool \<Rightarrow> accept_reply list \<Rightarrow> bool future" where
  "accept_proposal h timeout_if_partially_accepted rs =
     a_future (accept_run h timeout_if_partially_accepted rs)"

text \<open>A handler for three live replicas and a quorum of two, used in examples.\<close>

definition three_replicas :: paxos_response_handler where
  "three_replicas = \<lparr>cl_for_paxos = SERIAL, prh_required_participants = 2,
                      live_endpoints = [1, 2, 3]\<rparr>"

subsection \<open>\<^verbatim>\<open>paxos_response_handler::prepare_ballot\<close>\<close>

record query_result =
  payload :: nat
  result_digest :: nat

datatype data_or_digest = Data query_result | Digest nat

text \<open>
  A replica answers a prepare with the higher ballot it has already promised, or with a
  promise carrying its accepted proposal, its most recent commit and the data or the
  digest of the row; or the request times out, or fails in another way.
\<close>

record promise =
  accepted_proposal :: "proposal option"
  promise_most_recent_commit :: "proposal option"
  promise_data_or_digest :: "data_or_digest option"

datatype prepare_reply =
  Prepare_timeout | Prepare_error | Prepare_rejected UUID | Prepare_promise promise

text \<open>
  Modelled from the spec: \<^verbatim>\<open>paxos/prepare_summary.hh\<close> is absent. The summary starts
  promised, with the minimal ballot and nothing else known, and
  \<^verbatim>\<open>update_most_recent_promised_ballot\<close> keeps the ballot with the latest time ("the
  highest promised ballot any replica has rejected us with").
\<close>

record prepare_summary =
  promised :: bool
  most_recent_promised_ballot :: UUID
  most_recent_proposal :: "proposal option"
  most_recent_commit :: "proposal option"
  committed_ballots_by_replica :: "(inet_address \<times> UUID) list"
  data :: "query_result option"

definition prepare_summary_init :: prepare_summary where
  "prepare_summary_init =
     \<lparr>promised = True, most_recent_promised_ballot = min_time_UUID,
      most_recent_proposal = None, most_recent_commit = None,
      committed_ballots_by_replica = [], data = None\<rparr>"

definition update_most_recent_promised_ballot :: "UUID \<Rightarrow> prepare_summary \<Rightarrow> prepare_summary" where
  "update_most_recent_promised_ballot b s =
     (if timestamp b > timestamp (most_recent_promised_ballot s)
      then s\<lparr>most_recent_promised_ballot := b\<rparr> else s)"

text \<open>\<^verbatim>\<open>unordered_map::emplace\<close>: an existing key keeps its value.\<close>

definition emplace :: "'k \<Rightarrow> 'v \<Rightarrow> ('k \<times> 'v) list \<Rightarrow> ('k \<times> 'v) list" where
  "emplace k v m = (if k \<in> fst ` set m then m else m @ [(k, v)])"

record prepare_request_tracker =
  p_errors :: nat
  digests_match :: bool
  digest :: "nat option"
  p_p :: bool
  p_future :: "prepare_summary future"

definition prepare_request_tracker_init :: prepare_request_tracker where
  "prepare_request_tracker_init =
     \<lparr>p_errors = 0, digests_match = True, digest = None, p_p = True, p_future = Pending\<rparr>"

definition p_set_value :: "prepare_summary \<Rightarrow> prepare_request_tracker \<Rightarrow> prepare_request_tracker" where
  "p_set_value v t =
     t\<lparr>p_future := (if p_p t then set_value v (p_future t) else Double_set), p_p := False\<rparr>"

definition p_set_exception :: "exn \<Rightarrow> prepare_request_tracker \<Rightarrow> prepare_request_tracker" where
  "p_set_exception e t =
     t\<lparr>p_future := (if p_p t then set_exception e (p_future t) else Double_set), p_p := False\<rparr>"

text \<open>The comparison of the row's digests that rides on the promises.\<close>

definition check_digests ::
  "promise \<Rightarrow> prepare_summary \<times> prepare_request_tracker
     \<Rightarrow> prepare_summary \<times> prepare_request_tracker" where
  "check_digests response st =
     (let (summary, t) = st
      in if \<not> digests_match t then (summary, t)
         else
           let (summary1, t1) =
                 (case promise_data_or_digest response of
                    None \<Rightarrow> (summary, t\<lparr>digests_match := False\<rparr>)
                  | Some dd \<Rightarrow>
                      let dat = (case dd of Data q \<Rightarrow> Some q | Digest _ \<Rightarrow> None);
                          dg = (case dd of Data q \<Rightarrow> result_digest q | Digest g \<Rightarrow> g);
                          t' = (case digest t of
                                  Some g \<Rightarrow> (if g \<noteq> dg then t\<lparr>digests_match := False\<rparr> else t)
                                | None \<Rightarrow> t\<lparr>digest := Some dg\<rparr>)
                      in (if digests_match t' \<and> data summary = None \<and> dat \<noteq> None
                          then summary\<lparr>data := dat\<rparr> else summary, t'))
           in if \<not> digests_match t1 then (summary1\<lparr>data := None\<rparr>, t1\<lparr>digest := None\<rparr>)
              else (summary1, t1))"

text \<open>\<^verbatim>\<open>on_prepare_response\<close> for a promise.\<close>

definition on_promise ::
  "paxos_response_handler \<Rightarrow> inet_address \<Rightarrow> promise
     \<Rightarrow> prepare_summary \<times> prepare_request_tracker
     \<Rightarrow> prepare_summary \<times> prepare_request_tracker" where
  "on_promise h peer response st =
     (let (summary, t) = st;
          mrc_ballot = (case promise_most_recent_commit response of
                          None \<Rightarrow> min_time_UUID | Some c \<Rightarrow> ballot c);
          s1 = (case promise_most_recent_commit response of
                  None \<Rightarrow> summary
                | Some c \<Rightarrow>
                    (case most_recent_commit summary of
                       None \<Rightarrow> summary\<lparr>most_recent_commit := Some c\<rparr>
                     | Some m \<Rightarrow>
                         if timestamp (ballot m) < timestamp (ballot c)
                         then summary\<lparr>most_recent_commit := Some c\<rparr> else summary));
          s2 = s1\<lparr>committed_ballots_by_replica :=
                    emplace peer mrc_ballot (committed_ballots_by_replica s1)\<rparr>;
          s3 = (case accepted_proposal response of
                  None \<Rightarrow> s2
                | Some a \<Rightarrow>
                    let s' = update_most_recent_promised_ballot (ballot a) s2
                    in if most_recent_proposal s' = None
                          \<or> optional_proposal_gt (Some a) (most_recent_proposal s')
                       then s'\<lparr>most_recent_proposal := Some a\<rparr> else s');
          (s4, t4) = check_digests response (s3, t)
      in if length (committed_ballots_by_replica s4) = prh_required_participants h
         then (s4, p_set_value s4 t4) else (s4, t4))"

text \<open>The body of \<^verbatim>\<open>handle_one_msg\<close> once the peer's answer (or exception) is there.\<close>

definition prepare_handle_one_msg ::
  "paxos_response_handler \<Rightarrow> inet_address \<times> prepare_reply
     \<Rightarrow> prepare_summary \<times> prepare_request_tracker
     \<Rightarrow> prepare_summary \<times> prepare_request_tracker" where
  "prepare_handle_one_msg h pr st =
     (let (peer, r) = pr; (summary, t) = st
      in case r of
           Prepare_timeout \<Rightarrow>
             if p_p t
             then (summary, p_set_exception
                     (mutation_write_timeout_exception (cl_for_paxos h)
                        (length (committed_ballots_by_replica summary))
                        (prh_required_participants h) CAS) t)
             else (summary, t)
         | Prepare_error \<Rightarrow>
             if p_p t
             then let t1 = t\<lparr>p_errors := p_errors t + 1\<rparr>
                  in if prh_required_participants h + p_errors t1 > length (live_endpoints h)
                     then (summary, p_set_exception
                             (mutation_write_failure_exception (cl_for_paxos h)
                                (length (committed_ballots_by_replica summary)) (p_errors t1)
                                (prh_required_participants h) CAS) t1)
                     else (summary, t1)
             else (summary, t)
         | Prepare_rejected u \<Rightarrow>
             if \<not> p_p t then (summary, t)
             else let s1 = (update_most_recent_promised_ballot u summary)\<lparr>promised := False\<rparr>
                  in (s1, p_set_value s1 t)
         | Prepare_promise response \<Rightarrow>
             if \<not> p_p t then (summary, t)
             else on_promise h peer response (summary, t))"

definition prepare_ballot ::
  "paxos_response_handler \<Rightarrow> (inet_address \<times> prepare_reply) list \<Rightarrow> prepare_summary future" where
  "prepare_ballot h rs =
     p_future (snd (foldl (\<lambda>st r. prepare_handle_one_msg h r st)
                      (prepare_summary_init, prepare_request_tracker_init) rs))"

subsection \<open>\<^verbatim>\<open>paxos_response_handler::begin_and_repair_paxos\<close>\<close>

text \<open>
  The collaborators of the loop that are not part of the sources at hand are parameters:
  the client state's \<^verbatim>\<open>get_timestamp_for_paxos\<close>, which takes the least timestamp to
  use and returns the ballot's time and the new client state, and the summary's
  \<^verbatim>\<open>replicas_missing_most_recent_commit\<close>.
\<close>

record 'cs collaborators =
  get_timestamp_for_paxos :: "'cs \<Rightarrow> int \<Rightarrow> int \<times> 'cs"
  replicas_missing_most_recent_commit :: "prepare_summary \<Rightarrow> UUID \<Rightarrow> inet_address list"

text \<open>
  What the rest of the world does during one pass of the loop: whether the deadline of
  the operation has passed, the random bits of the new ballot, the answers to the
  prepare and to the accept, and how the learn and the repair of an old commit end
  (\<open>None\<close> for success).
\<close>

record round_env =
  now_after_cas_timeout :: bool
  uuid_random :: nat
  prepare_replies :: "(inet_address \<times> prepare_reply) list"
  accept_replies :: "accept_reply list"
  learn_outcome :: "exn option"
  repair_outcome :: "exn option"

text \<open>What the coordinator does, in order.\<close>

datatype action =
  Prepare UUID
  | Accept proposal bool
  | Learn proposal bool
  | Sleep_approx_50ms
  | Repair_commit "proposal option" "inet_address list"

text \<open>
  A coroutine returns, throws, or stays suspended: on a future that never resolves or,
  for the loop, because the script of the environment has ended.
\<close>

datatype 'a coroutine = Returned 'a | Threw exn | Suspended

datatype round_outcome =
  Continue int nat
  | Finish "(UUID \<times> query_result option) coroutine"

text \<open>
  The test of the loop for "an in-progress accepted ballot greater than the most recent
  commit we know": the proposal to complete, if there is one.
\<close>

definition unfinished_in_progress :: "prepare_summary \<Rightarrow> proposal option" where
  "unfinished_in_progress summary =
     (case most_recent_proposal summary of
        None \<Rightarrow> None
      | Some in_progress \<Rightarrow>
          (case most_recent_commit summary of
             None \<Rightarrow> Some in_progress
           | Some c \<Rightarrow>
               if timestamp (ballot in_progress) > timestamp (ballot c)
               then Some in_progress else None))"

text \<open>
  One pass of the loop after the ballot has been made, with the least timestamp and the
  number of contentions it starts from. Statistics counters are left out.
\<close>

definition paxos_round ::
  "'cs collaborators \<Rightarrow> paxos_response_handler \<Rightarrow> UUID \<Rightarrow> int \<Rightarrow> nat \<Rightarrow> round_env
     \<Rightarrow> round_outcome \<times> action list" where
  "paxos_round C h b min_timestamp_micros_to_use contentions e =
     (case prepare_ballot h (prepare_replies e) of
        Pending \<Rightarrow> (Finish Suspended, [Prepare b])
      | Double_set \<Rightarrow> (Finish Suspended, [Prepare b])
      | Failed x \<Rightarrow> (Finish (Threw x), [Prepare b])
      | Ready summary \<Rightarrow>
          if \<not> promised summary
          then (Continue min_timestamp_micros_to_use (contentions + 1),
                [Prepare b, Sleep_approx_50ms])
          else
            let min' = micros_timestamp (most_recent_promised_ballot summary) + 1
            in case unfinished_in_progress summary of
                 Some in_progress \<Rightarrow>
                   let refreshed = \<lparr>ballot = b, update = update in_progress\<rparr>
                   in (case accept_proposal h False (accept_replies e) of
                         Pending \<Rightarrow> (Finish Suspended, [Prepare b, Accept refreshed False])
                       | Double_set \<Rightarrow> (Finish Suspended, [Prepare b, Accept refreshed False])
                       | Failed x \<Rightarrow> (Finish (Threw x), [Prepare b, Accept refreshed False])
                       | Ready is_accepted \<Rightarrow>
                           if is_accepted
                           then (case learn_outcome e of
                                   None \<Rightarrow> Continue min' contentions
                                 | Some (mutation_write_timeout_exception cl r bf ty) \<Rightarrow>
                                     Finish (Threw (mutation_write_timeout_exception cl r bf CAS))
                                 | Some x \<Rightarrow> Finish (Threw x),
                                 [Prepare b, Accept refreshed False, Learn refreshed False])
                           else (Continue min' (contentions + 1),
                                 [Prepare b, Accept refreshed False, Sleep_approx_50ms]))
               | None \<Rightarrow>
                   let missing_mrc = replicas_missing_most_recent_commit C summary b
                   in if missing_mrc \<noteq> []
                      then (case repair_outcome e of
                              None \<Rightarrow> Finish (Returned (b, data summary))
                            | Some x \<Rightarrow> Continue min' contentions,
                            [Prepare b, Repair_commit (most_recent_commit summary) missing_mrc])
                      else (Finish (Returned (b, data summary)), [Prepare b]))"

text \<open>
  The loop. Each pass first checks the deadline, then asks the client state for the
  time of the ballot. The result comes with the actions taken, the number of contentions
  and the client state.
\<close>

fun begin_and_repair_loop ::
  "'cs collaborators \<Rightarrow> paxos_response_handler \<Rightarrow> 'cs \<Rightarrow> int \<Rightarrow> nat \<Rightarrow> round_env list
     \<Rightarrow> (UUID \<times> query_result option) coroutine \<times> action list \<times> nat \<times> 'cs" where
  "begin_and_repair_loop C h cs min_timestamp_micros_to_use contentions [] =
     (Suspended, [], contentions, cs)"
| "begin_and_repair_loop C h cs min_timestamp_micros_to_use contentions (e # es) =
     (if now_after_cas_timeout e
      then (Threw (mutation_write_timeout_exception (cl_for_paxos h) 0
                     (prh_required_participants h) CAS), [], contentions, cs)
      else
        let (ballot_micros, cs') = get_timestamp_for_paxos C cs min_timestamp_micros_to_use;
            b = get_random_time_UUID_from_micros ballot_micros (uuid_random e)
        in case paxos_round C h b min_timestamp_micros_to_use contentions e of
             (Finish r, acts) \<Rightarrow> (r, acts, contentions, cs')
           | (Continue min' contentions', acts) \<Rightarrow>
               (let (r, acts', c, cs'') = begin_and_repair_loop C h cs' min' contentions' es
                in (r, acts @ acts', c, cs'')))"

definition begin_and_repair_paxos ::
  "'cs collaborators \<Rightarrow> paxos_response_handler \<Rightarrow> bool \<Rightarrow> 'cs \<Rightarrow> nat \<Rightarrow> round_env list
     \<Rightarrow> (UUID \<times> query_result option) coroutine \<times> action list \<times> nat \<times> 'cs" where
  "begin_and_repair_paxos C h cluster_supports_lwt cs contentions es =
     (if \<not> cluster_supports_lwt
      then (Threw (runtime_error ''The cluster does not support Paxos. Upgrade all the nodes to the version with LWT support.''),
            [], contentions, cs)
      else begin_and_repair_loop C h cs 0 contentions es)"

text \<open>
  Modelled from the spec: \<^verbatim>\<open>service/client_state.hh\<close> is absent. The client state
  hands out a time that is not below the wall clock, not below the least timestamp asked
  for, and later than the last one it assigned. The wall clock is the list of its future
  readings.
\<close>

record client_state =
  new_timestamps :: "int list"
  last_timestamp_micros :: int

definition client_state_get_timestamp_for_paxos :: "client_state \<Rightarrow> int \<Rightarrow> int \<times> client_state" where
  "client_state_get_timestamp_for_paxos cs min_timestamp_to_use =
     (let now = (case new_timestamps cs of [] \<Rightarrow> 0 | t # _ \<Rightarrow> t);
          current = max now min_timestamp_to_use;
          last = (if last_timestamp_micros cs \<ge> current
                  then last_timestamp_micros cs + 1 else current)
      in (last, \<lparr>new_timestamps = tl (new_timestamps cs), last_timestamp_micros = last\<rparr>))"

text \<open>
  Modelled from the spec: \<^verbatim>\<open>paxos/prepare_summary.cc\<close> is absent. The replicas that
  answered with a commit other than the most recent one are missing it.
\<close>

definition summary_replicas_missing_most_recent_commit ::
  "prepare_summary \<Rightarrow> UUID \<Rightarrow> inet_address list" where
  "summary_replicas_missing_most_recent_commit s now =
     (case most_recent_commit s of
        None \<Rightarrow> []
      | Some c \<Rightarrow> map fst (filter (\<lambda>kv. snd kv \<noteq> ballot c) (committed_ballots_by_replica s)))"

definition real_collaborators :: "client_state collaborators" where
  "real_collaborators =
     \<lparr>get_timestamp_for_paxos = client_state_get_timestamp_for_paxos,
      replicas_missing_most_recent_commit = summary_replicas_missing_most_recent_commit\<rparr>"

text \<open>
  Example rounds for three replicas: a prepare that the first replica rejects with a
  ballot of time 1000; one that two replicas promise with nothing in progress; one where
  the first replica reports a proposal it accepted at time 50 while the newest commit
  that any replica knows has time 40, and which two replicas then accept again; and one
  where both replicas report that proposal, accepted under the ballot of time 100, as
  their newest commit.
\<close>

definition empty_promise :: promise where
  "empty_promise = \<lparr>accepted_proposal = None, promise_most_recent_commit = None,
                     promise_data_or_digest = None\<rparr>"

definition round_rejected :: round_env where
  "round_rejected =
     \<lparr>now_after_cas_timeout = False, uuid_random = 7,
      prepare_replies = [(1, Prepare_rejected \<lparr>micros = 1000, random_bits = 3\<rparr>)],
      accept_replies = [], learn_outcome = None, repair_outcome = None\<rparr>"

definition round_promised :: round_env where
  "round_promised =
     \<lparr>now_after_cas_timeout = False, uuid_random = 8,
      prepare_replies = [(1, Prepare_promise empty_promise), (2, Prepare_promise empty_promise)],
      accept_replies = [], learn_outcome = None, repair_outcome = None\<rparr>"

definition round_unfinished :: round_env where
  "round_unfinished =
     \<lparr>now_after_cas_timeout = False, uuid_random = 9,
      prepare_replies =
        [(1, Prepare_promise
               \<lparr>accepted_proposal = Some \<lparr>ballot = \<lparr>micros = 50, random_bits = 1\<rparr>, update = 42\<rparr>,
                promise_most_recent_commit =
                  Some \<lparr>ballot = \<lparr>micros = 40, random_bits = 2\<rparr>, update = 41\<rparr>,
                promise_data_or_digest = None\<rparr>),
         (2, Prepare_promise
               \<lparr>accepted_proposal = None,
                promise_most_recent_commit =
                  Some \<lparr>ballot = \<lparr>micros = 40, random_bits = 2\<rparr>, update = 41\<rparr>,
                promise_data_or_digest = None\<rparr>)],
      accept_replies = [Accept_value True, Accept_value True],
      learn_outcome = None, repair_outcome = None\<rparr>"

definition round_finished :: round_env where
  "round_finished =
     \<lparr>now_after_cas_timeout = False, uuid_random = 8,
      prepare_replies =
        [(1, Prepare_promise
               \<lparr>accepted_proposal = Some \<lparr>ballot = \<lparr>micros = 100, random_bits = 9\<rparr>, update = 42\<rparr>,
                promise_most_recent_commit =
                  Some \<lparr>ballot = \<lparr>micros = 100, random_bits = 9\<rparr>, update = 42\<rparr>,
                promise_data_or_digest = None\<rparr>),
         (2, Prepare_promise
               \<lparr>accepted_proposal = Some \<lparr>ballot = \<lparr>micros = 100, random_bits = 9\<rparr>, update = 42\<rparr>,
                promise_most_recent_commit =
                  Some \<lparr>ballot = \<lparr>micros = 100, random_bits = 9\<rparr>, update = 42\<rparr>,
                promise_data_or_digest = None\<rparr>)],
      accept_replies = [], learn_outcome = None, repair_outcome = None\<rparr>"

definition slow_clock :: client_state where
  "slow_clock = \<lparr>new_timestamps = [100, 150, 200], last_timestamp_micros = 0\<rparr>"

subsection \<open>\<^verbatim>\<open>digest_read_resolver\<close>\<close>

text \<open>
  Where a resolver asks whether a replica counts for the consistency level it uses
  \<^verbatim>\<open>db::is_datacenter_local\<close>, \<^verbatim>\<open>fbu::is_me\<close> and \<^verbatim>\<open>db::is_local\<close>, which are
  parameters here.
\<close>

record locality =
  is_datacenter_local :: "consistency_level \<Rightarrow> bool"
  is_me :: "inet_address \<Rightarrow> bool"
  is_local_endpoint :: "inet_address \<Rightarrow> bool"

type_synonym result_digest = nat

record digest_read_result =
  result :: query_result
  drr_digests_match :: bool

record digest_read_resolver =
  r_cl :: consistency_level
  targets_count :: nat
  done_promise :: "unit future"
  request_failed :: bool
  timeout_armed :: bool
  r_failed :: nat
  r_block_for :: nat
  cl_responses :: nat
  cl_promise :: "digest_read_result future"
  cl_reported :: bool
  data_result :: "query_result option"
  digest_results :: "result_digest list"
  last_modified :: int
  target_count_for_cl :: nat



definition response_count :: "digest_read_resolver \<Rightarrow> nat" where
  "response_count r = length (digest_results r)"

text \<open>
  \<^verbatim>\<open>digests_match\<close> asserts that there is a response; callers below only ask when there
  is one.
\<close>

definition digests_match_resolver :: "digest_read_resolver \<Rightarrow> bool" where
  "digests_match_resolver r =
     (if response_count r = 1 then True
      else case digest_results r of
             [] \<Rightarrow> True
           | first # rest \<Rightarrow> find (\<lambda>d. d \<noteq> first) rest = None)"

definition waiting_for :: "locality \<Rightarrow> digest_read_resolver \<Rightarrow> inet_address \<Rightarrow> bool" where
  "waiting_for L r ep =
     (if is_datacenter_local L (r_cl r) then is_me L ep \<or> is_local_endpoint L ep else True)"

definition is_completed :: "digest_read_resolver \<Rightarrow> bool" where
  "is_completed r = (response_count r = targets_count r)"

definition resolver_got_response :: "locality \<Rightarrow> inet_address \<Rightarrow> digest_read_resolver \<Rightarrow> digest_read_resolver" where
  "resolver_got_response L ep r0 =
     (let r1 = (if \<not> cl_reported r0
                then let r = (if waiting_for L r0 ep
                              then r0\<lparr>cl_responses := cl_responses r0 + 1\<rparr> else r0)
                     in (case data_result r of
                           Some d \<Rightarrow>
                             if cl_responses r \<ge> r_block_for r
                             then r\<lparr>cl_reported := True,
                                    cl_promise := set_value
                                      \<lparr>result = d, drr_digests_match = digests_match_resolver r\<rparr>
                                      (cl_promise r),
                                    data_result := None\<rparr>
                             else r
                         | None \<Rightarrow> r)
                else r0)
      in if is_completed r1
         then r1\<lparr>timeout_armed := False, done_promise := set_value () (done_promise r1)\<rparr>
         else r1)"

text \<open>
  A data reply carries the result, whose digest the replica computed because the request
  asked for it (it does whenever more than one target is queried), and the time of the
  last modification.
\<close>

definition add_data ::
  "locality \<Rightarrow> inet_address \<Rightarrow> query_result \<Rightarrow> int \<Rightarrow> digest_read_resolver \<Rightarrow> digest_read_resolver" where
  "add_data L from res modified r =
     (if \<not> request_failed r
      then resolver_got_response L from
             (r\<lparr>digest_results := digest_results r
                                    @ [if targets_count r = 1 then 0 else result_digest res],
                last_modified := max (last_modified r) modified,
                data_result := (case data_result r of None \<Rightarrow> Some res | Some d \<Rightarrow> Some d)\<rparr>)
      else r)"

definition add_digest ::
  "locality \<Rightarrow> inet_address \<Rightarrow> result_digest \<Rightarrow> int \<Rightarrow> digest_read_resolver \<Rightarrow> digest_read_resolver" where
  "add_digest L from dg modified r =
     (if \<not> request_failed r
      then resolver_got_response L from
             (r\<lparr>digest_results := digest_results r @ [dg],
                last_modified := max (last_modified r) modified\<rparr>)
      else r)"

definition fail_request :: "exn \<Rightarrow> digest_read_resolver \<Rightarrow> digest_read_resolver" where
  "fail_request ex r =
     (let r1 = r\<lparr>request_failed := True, done_promise := set_exception ex (done_promise r),
                  timeout_armed := False\<rparr>;
          r2 = (if \<not> cl_reported r1 then r1\<lparr>cl_promise := set_exception ex (cl_promise r1)\<rparr>
                else r1)
      in r2\<lparr>data_result := None, digest_results := []\<rparr>)"

definition resolver_on_timeout :: "digest_read_resolver \<Rightarrow> digest_read_resolver" where
  "resolver_on_timeout r =
     fail_request (read_timeout_exception (r_cl r) (cl_responses r) (r_block_for r)
                     (data_result r \<noteq> None)) r"

definition resolver_on_error :: "locality \<Rightarrow> inet_address \<Rightarrow> bool \<Rightarrow> digest_read_resolver \<Rightarrow> digest_read_resolver" where
  "resolver_on_error L ep disconnect r0 =
     (let r = (if waiting_for L r0 ep then r0\<lparr>r_failed := r_failed r0 + 1\<rparr> else r0)
      in if disconnect \<and> r_block_for r = target_count_for_cl r then r
         else if r_block_for r + r_failed r > target_count_for_cl r
         then fail_request (read_failure_exception (r_cl r) (cl_responses r) (r_failed r)
                              (r_block_for r) (data_result r \<noteq> None)) r
         else r)"

datatype rpc_error = Closed_error | Timeout_error | Other_error

definition resolver_error :: "locality \<Rightarrow> inet_address \<Rightarrow> rpc_error \<Rightarrow> digest_read_resolver \<Rightarrow> digest_read_resolver" where
  "resolver_error L ep err r =
     (case err of
        Timeout_error \<Rightarrow> r
      | _ \<Rightarrow> if \<not> request_failed r then resolver_on_error L ep (err = Closed_error) r else r)"

text \<open>What reaches the resolver of a read, in the order it arrives.\<close>

datatype read_event =
  Data_response inet_address query_result int
  | Digest_response inet_address result_digest int
  | Request_error inet_address rpc_error
  | Timeout_expired

definition resolver_step :: "locality \<Rightarrow> read_event \<Rightarrow> digest_read_resolver \<Rightarrow> digest_read_resolver" where
  "resolver_step L ev r =
     (case ev of
        Data_response ep res m \<Rightarrow> add_data L ep res m r
      | Digest_response ep dg m \<Rightarrow> add_digest L ep dg m r
      | Request_error ep err \<Rightarrow> resolver_error L ep err r
      | Timeout_expired \<Rightarrow> (if timeout_armed r then resolver_on_timeout r else r))"

subsection \<open>\<^verbatim>\<open>abstract_read_executor\<close>: reconciliation\<close>

text \<open>
  The fields of a read command that reconciliation reads and changes. The row limits are
  \<^verbatim>\<open>uint64_t\<close>, the partition limit is \<^verbatim>\<open>uint32_t\<close>.
\<close>

record read_command =
  row_limit :: nat
  partition_row_limit :: nat
  partition_limit :: nat
  allow_short_read :: bool
  read_timestamp :: int

text \<open>
  \<^verbatim>\<open>query::max_rows\<close> and \<^verbatim>\<open>query::max_partitions\<close> are declared outside the sources
  at hand; they are parameters, a \<^verbatim>\<open>uint64_t\<close> and a \<^verbatim>\<open>uint32_t\<close> value.
\<close>

record query_limits =
  max_rows :: nat
  max_partitions :: nat

text \<open>
  The two lambdas of the retry: \<open>limit_x\<close> (\<^verbatim>\<open>x\<close> in the source) extrapolates the limit to ask for from the limit
  \<open>t\<close> that was asked and the number \<open>l\<close> of live rows that came back. The sum
  \<open>t + 1\<close> is computed in 64 bits, the quotient and the product in 128 bits, where
  they cannot overflow; the result is cast to 64 bits.
\<close>

definition limit_x :: "query_limits \<Rightarrow> nat \<Rightarrow> nat \<Rightarrow> nat" where
  "limit_x Q t l = (min (max_rows Q) (if l = 0 then (t + 1) mod 2 ^ 64 else t * t div l + 1)) mod 2 ^ 64"

definition all_partitions_x :: "query_limits \<Rightarrow> nat \<Rightarrow> nat \<Rightarrow> nat" where
  "all_partitions_x Q xx partitions = (min (max_rows Q) (xx * partitions)) mod 2 ^ 64"

text \<open>
  What \<^verbatim>\<open>data_read_resolver::resolve\<close> leaves behind for the executor: the reconciled
  result, if the resolver trusts it, and the counters and flags the executor asks for.
  The merge of the mutations itself is not part of the model.
\<close>

record reconcilable_result =
  rr_row_count :: nat
  rr_partitions :: nat
  rr_is_short_read :: bool

type_synonym diffs = "(inet_address \<times> nat) list"

record resolution =
  rr_opt :: "reconcilable_result option"
  all_reached_end :: bool
  live_partition_count :: nat
  any_partition_short_read :: bool
  increase_per_partition_limit :: bool
  max_per_partition_live_count :: nat
  partition_count :: nat
  total_live_count :: nat
  get_diffs_for_repair :: diffs

text \<open>
  One round of reconciliation as the environment plays it: the data resolver fails (with
  the exception of its \<^verbatim>\<open>done\<close> future) or resolves, and the repair writes, if any are
  sent, succeed (\<open>None\<close>) or fail.
\<close>

record attempt =
  resolved :: "exn + resolution"
  repair_result :: "exn option"

text \<open>
  The three executors of a read. They differ in \<^verbatim>\<open>make_requests\<close>, and the speculating
  one, which may send one more request when its timer fires, also in
  \<^verbatim>\<open>adjust_targets_for_reconciliation\<close>. \<open>ex_used_targets\<close> is the field
  \<^verbatim>\<open>_used_targets\<close>: the targets whose data or digest reply has arrived.
\<close>

datatype executor_kind = Never_speculating | Always_speculating | Speculating

record read_executor =
  kind :: executor_kind
  ex_cmd :: read_command
  ex_cl :: consistency_level
  ex_block_for :: nat
  ex_targets :: "inet_address list"
  ex_used_targets :: "inet_address list"
  to_data_query_result :: "reconcilable_result \<Rightarrow> nat \<Rightarrow> nat \<Rightarrow> query_result"
  write_request_timeout_in_ms :: nat

text \<open>What the executor does, in order.\<close>

datatype read_action =
  Data_request inet_address bool
  | Digest_request inet_address
  | Mutation_data_request read_command inet_address
  | Repair_write diffs consistency_level
  | Repair_awaited
  | Result_set_value query_result
  | Result_set_exception exn
  | On_read_resolved
  | Count_read_retry

text \<open>
  \<^verbatim>\<open>storage_proxy::schedule_repair\<close>: nothing to write gives a ready future; otherwise the
  diffs go to \<^verbatim>\<open>mutate_internal\<close>, whose outcome the environment supplies. The result
  is the writes issued and how the returned future resolves (\<open>None\<close> for success).
\<close>

definition schedule_repair ::
  "diffs \<Rightarrow> consistency_level \<Rightarrow> exn option \<Rightarrow> read_action list \<times> exn option" where
  "schedule_repair ds cl outcome =
     (if ds = [] then ([], None) else ([Repair_write ds cl], outcome))"

definition retry_command :: "query_limits \<Rightarrow> read_command \<Rightarrow> resolution \<Rightarrow> read_command" where
  "retry_command Q cmd res =
     (let c1 =
            (if any_partition_short_read res \<or> increase_per_partition_limit res
             then let new_partition_limit =
                        limit_x Q (partition_row_limit cmd) (max_per_partition_live_count res mod 2 ^ 32);
                      new_limit = all_partitions_x Q new_partition_limit (partition_count res)
                  in cmd\<lparr>partition_row_limit := new_partition_limit,
                          row_limit := max (row_limit cmd) new_limit\<rparr>
             else
               let c = (if partition_limit cmd \<noteq> max_partitions Q
                        then cmd\<lparr>partition_limit :=
                                   min (max_partitions Q)
                                     (limit_x Q (partition_limit cmd) (live_partition_count res))\<rparr>
                        else cmd)
               in if row_limit cmd \<noteq> max_rows Q
                  then c\<lparr>row_limit := limit_x Q (row_limit cmd) (total_live_count res)\<rparr>
                  else c)
      in if total_live_count res = 0 then c1\<lparr>allow_short_read := False\<rparr> else c1)"

text \<open>
  The test that lets the executor deliver the reconciled result: the result to deliver,
  if the test passes.
\<close>

definition deliverable :: "read_executor \<Rightarrow> resolution \<Rightarrow> reconcilable_result option" where
  "deliverable ex res =
     (case rr_opt res of
        None \<Rightarrow> None
      | Some rr \<Rightarrow>
          let can_send_short_read = (rr_is_short_read rr \<and> rr_row_count rr > 0)
          in if (can_send_short_read \<or> all_reached_end res
                 \<or> rr_row_count rr \<ge> row_limit (ex_cmd ex)
                 \<or> live_partition_count res \<ge> partition_limit (ex_cmd ex))
                \<and> \<not> any_partition_short_read res
             then Some rr else None)"

text \<open>
  \<^verbatim>\<open>adjust_targets_for_reconciliation\<close>, which \<^verbatim>\<open>reconcile\<close> calls first: the speculating
  executor goes on with the targets that have answered, the others keep theirs.
\<close>

definition adjust_targets_for_reconciliation :: "read_executor \<Rightarrow> read_executor" where
  "adjust_targets_for_reconciliation ex =
     (case kind ex of
        Speculating \<Rightarrow> ex\<lparr>ex_targets := ex_used_targets ex\<rparr>
      | _ \<Rightarrow> ex)"

text \<open>
  \<^verbatim>\<open>reconcile\<close>: each round sends a mutation-data request to every target; the rounds
  go on until the data resolver fails, or the result can be delivered, or the script of
  the environment ends, which leaves the read waiting. The result is the state of the
  result promise and the actions in order; \<open>Repair_awaited\<close> marks the point where the
  future of \<^verbatim>\<open>schedule_repair\<close> has resolved successfully.
\<close>

fun reconcile ::
  "query_limits \<Rightarrow> read_executor \<Rightarrow> read_command \<Rightarrow> attempt list
     \<Rightarrow> query_result future \<times> read_action list" where
  "reconcile Q ex cmd [] =
     (Pending, map (Mutation_data_request cmd)
                 (ex_targets (adjust_targets_for_reconciliation ex)))"
| "reconcile Q ex cmd (a # as) =
     (let requests = map (Mutation_data_request cmd)
                       (ex_targets (adjust_targets_for_reconciliation ex))
      in case resolved a of
           Inl e \<Rightarrow> (Failed e, requests @ [Result_set_exception e, On_read_resolved])
         | Inr res \<Rightarrow>
             (case deliverable ex res of
                Some rr \<Rightarrow>
                  let r = to_data_query_result ex rr (row_limit (ex_cmd ex)) (partition_limit cmd);
                      (writes, outcome) = schedule_repair (get_diffs_for_repair res) (ex_cl ex)
                                            (repair_result a)
                  in (case outcome of
                        None \<Rightarrow>
                          (Ready r, requests @ writes
                                      @ [Repair_awaited, Result_set_value r, On_read_resolved])
                      | Some (mutation_write_timeout_exception c rc bf ty) \<Rightarrow>
                          (let e = read_timeout_exception (ex_cl ex)
                                     ((ex_block_for ex + 2 ^ 64 - 1) mod 2 ^ 64)
                                     (ex_block_for ex) True
                           in (Failed e, requests @ writes
                                           @ [Result_set_exception e, On_read_resolved]))
                      | Some e \<Rightarrow>
                          (Failed e, requests @ writes
                                       @ [Result_set_exception e, On_read_resolved]))
              | None \<Rightarrow>
                  let (p, acts) = reconcile Q ex (retry_command Q cmd res) as
                  in (p, requests @ Count_read_retry # acts)))"

subsection \<open>\<^verbatim>\<open>abstract_read_executor::execute\<close>\<close>


text \<open>
  The callback of the speculating executor's timer: unless the resolver has all the
  replies it waits for, it is told to wait for one more and the last target is sent a
  digest request, or a data request if no data has arrived yet.
\<close>

definition speculate ::
  "read_executor \<Rightarrow> digest_read_resolver \<Rightarrow> digest_read_resolver \<times> read_action list" where
  "speculate ex r =
     (if \<not> is_completed r
      then (r\<lparr>targets_count := targets_count r + 1\<rparr>,
            [if data_result r \<noteq> None then Digest_request (last (ex_targets ex))
             else Data_request (last (ex_targets ex)) True])
      else (r, []))"

text \<open>
  What happens to a read while it waits for its consistency level: an event reaches the
  resolver, or the timer of the speculating executor fires. The state of the read is the
  resolver, the targets that have answered (every data or digest reply adds its sender),
  the requests the timer has sent, and whether the timer is armed.
\<close>

datatype executor_event = Resolver_event read_event | Speculate_timer

record read_run =
  run_resolver :: digest_read_resolver
  run_used_targets :: "inet_address list"
  run_speculated :: "read_action list"
  run_timer_armed :: bool

definition executor_step :: "locality \<Rightarrow> read_executor \<Rightarrow> executor_event \<Rightarrow> read_run \<Rightarrow> read_run" where
  "executor_step L ex ev st =
     (case ev of
        Resolver_event re \<Rightarrow>
          st\<lparr>run_resolver := resolver_step L re (run_resolver st),
             run_used_targets :=
               run_used_targets st
                 @ (case re of
                      Data_response ep res m \<Rightarrow> [ep]
                    | Digest_response ep dg m \<Rightarrow> [ep]
                    | _ \<Rightarrow> [])\<rparr>
      | Speculate_timer \<Rightarrow>
          if run_timer_armed st
          then let (r, requests) = speculate ex (run_resolver st)
               in st\<lparr>run_resolver := r, run_speculated := run_speculated st @ requests,
                     run_timer_armed := False\<rparr>
          else st)"





text \<open>
  The continuation on \<^verbatim>\<open>has_cl\<close>, for the resolver as it is when the promise resolves:
  the result promise, the actions, and whether the digests are checked again in the
  background.
\<close>

definition on_has_cl ::
  "locality \<Rightarrow> query_limits \<Rightarrow> read_executor \<Rightarrow> digest_read_resolver \<Rightarrow> attempt list
     \<Rightarrow> query_result future \<times> read_action list \<times> bool" where
  "on_has_cl L Q ex r attempts =
     (case cl_promise r of
        Ready dr \<Rightarrow>
          if drr_digests_match dr
          then (Ready (result dr), [Result_set_value (result dr), On_read_resolved],
                ex_block_for ex < length (ex_targets ex))
          else
            let delta = last_modified r - read_timestamp (ex_cmd ex);
                targets' =
                  (if is_datacenter_local L (ex_cl ex) \<and> read_timestamp (ex_cmd ex) \<ge> 0
                      \<and> \<bar>delta\<bar> \<le> int (write_request_timeout_in_ms ex * 1000)
                   then filter (is_local_endpoint L) (ex_targets ex) else ex_targets ex);
                (p, acts) = reconcile Q (ex\<lparr>ex_targets := targets'\<rparr>) (ex_cmd ex) attempts
            in (p, acts, False)
      | Failed e \<Rightarrow> (Failed e, [Result_set_exception e, On_read_resolved], False)
      | _ \<Rightarrow> (Pending, [], False))"




text \<open>The repair writes that \<^verbatim>\<open>schedule_repair\<close> issues for a resolution.\<close>

definition repair_writes :: "read_executor \<Rightarrow> resolution \<Rightarrow> read_action list" where
  "repair_writes ex res =
     (if get_diffs_for_repair res = [] then []
      else [Repair_write (get_diffs_for_repair res) (ex_cl ex)])"

text \<open>
  Examples: the limits of the source's \<^verbatim>\<open>query-request.hh\<close>; a quorum read of 10 rows
  from two of three replicas; a resolution that is not trusted, with 5 live rows; and one
  that can be delivered and has a diff for replica 2.
\<close>

definition limits_64 :: query_limits where
  "limits_64 = \<lparr>max_rows = 2 ^ 64 - 1, max_partitions = 2 ^ 32 - 1\<rparr>"


definition quorum_read :: read_executor where
  "quorum_read =
     \<lparr>kind = Never_speculating,
      ex_cmd = \<lparr>row_limit = 10, partition_row_limit = 2 ^ 64 - 1, partition_limit = 2 ^ 32 - 1,
                allow_short_read = False, read_timestamp = 0\<rparr>,
      ex_cl = QUORUM, ex_block_for = 2, ex_targets = [1, 2], ex_used_targets = [],
      to_data_query_result = (\<lambda>rr rl pl. \<lparr>payload = rr_partitions rr, result_digest = 0\<rparr>),
      write_request_timeout_in_ms = 2000\<rparr>"

definition incomplete_resolution :: resolution where
  "incomplete_resolution =
     \<lparr>rr_opt = None, all_reached_end = False, live_partition_count = 1,
      any_partition_short_read = False, increase_per_partition_limit = False,
      max_per_partition_live_count = 5, partition_count = 1, total_live_count = 5,
      get_diffs_for_repair = []\<rparr>"

definition complete_resolution :: resolution where
  "complete_resolution =
     \<lparr>rr_opt = Some \<lparr>rr_row_count = 10, rr_partitions = 77, rr_is_short_read = False\<rparr>,
      all_reached_end = False, live_partition_count = 1,
      any_partition_short_read = False, increase_per_partition_limit = False,
      max_per_partition_live_count = 10, partition_count = 1, total_live_count = 10,
      get_diffs_for_repair = [(2, 5)]\<rparr>"

definition two_rounds :: "attempt list" where
  "two_rounds = [\<lparr>resolved = Inr incomplete_resolution, repair_result = None\<rparr>,
                 \<lparr>resolved = Inr complete_resolution, repair_result = None\<rparr>]"

subsection \<open>Write response handlers\<close>

type_synonym response_id = nat

datatype error = NONE | TIMEOUT | FAILURE

text \<open>
  The handler classes differ in \<^verbatim>\<open>waited_for\<close>: \<^verbatim>\<open>write_response_handler\<close> waits for
  every target, \<^verbatim>\<open>datacenter_write_response_handler\<close> for the local ones. (The
  handler for \<^verbatim>\<open>EACH_QUORUM\<close>, which counts per datacenter, is not part of the model.)
\<close>

datatype handler_kind = Write_response_handler | Datacenter_write_response_handler

text \<open>
  The fields of \<^verbatim>\<open>abstract_write_response_handler\<close>. Of the mutation holder the model
  keeps the size and, as the function \<open>store_hint\<close>, the answer of its \<^verbatim>\<open>store_hint\<close>
  for an endpoint (the hints manager's answer for a shared mutation, \<open>False\<close> for a CAS
  holder). Statistics and tracing are left out.
\<close>

record write_handler =
  h_id :: response_id
  h_kind :: handler_kind
  h_cl :: consistency_level
  total_block_for :: nat
  h_type :: write_type
  h_targets :: "inet_address list"
  h_dead_endpoints :: "inet_address list"
  cl_acks :: nat
  cl_achieved :: bool
  throttled :: bool
  h_error :: error
  message :: "string option"
  failed :: nat
  all_failures :: nat
  total_endpoints :: nat
  ready :: "unit future"
  mutation_size :: nat
  store_hint :: "inet_address \<Rightarrow> bool"

text \<open>
  A continuation that \<^verbatim>\<open>delay\<close> has put to sleep: the one of \<^verbatim>\<open>signal\<close>, which
  completes or throttles the write, or the empty one of \<^verbatim>\<open>failure\<close>. Both hold the
  handler alive until they have run.
\<close>

datatype resume = Resume_signal | Resume_failure

text \<open>
  The coordinator's state: the handlers that are alive, the keys of the table
  \<^verbatim>\<open>_response_handlers\<close> (a handler erased from the table lives on while a sleeping
  continuation holds it), the sleeping continuations, the handlers that have been
  destroyed (as their destructors left them, kept to read the outcome), the queue of
  throttled writes, the byte counters that decide about throttling, and the view update
  backlogs. \<open>assertion_failed\<close> records a failed \<^verbatim>\<open>assert\<close>.
\<close>

record storage_proxy =
  objects :: "response_id \<rightharpoonup> write_handler"
  response_handlers :: "response_id set"
  sleeping :: "(response_id \<times> resume) list"
  destroyed :: "response_id \<rightharpoonup> write_handler"
  throttled_writes :: "response_id list"
  background_write_bytes :: int
  queued_write_bytes :: int
  background_write_throttle_threshold :: int
  view_update_backlogs :: "inet_address \<rightharpoonup> nat"
  hints_disabled_for_all :: bool
  assertion_failed :: bool

definition need_throttle_writes :: "storage_proxy \<Rightarrow> bool" where
  "need_throttle_writes s =
     (background_write_bytes s > background_write_throttle_threshold s
      \<or> queued_write_bytes s > 6 * 1024 * 1024)"



definition waited_for :: "locality \<Rightarrow> write_handler \<Rightarrow> inet_address \<Rightarrow> bool" where
  "waited_for L h from =
     (case h_kind h of
        Write_response_handler \<Rightarrow> True
      | Datacenter_write_response_handler \<Rightarrow> is_me L from \<or> is_local_endpoint L from)"

text \<open>
  The methods of a handler work on the handler and on the rest of the coordinator's
  state. \<open>delayed\<close> says whether \<^verbatim>\<open>calculate_delay\<close> gives a delay other than zero at
  this moment.
\<close>

definition handler_unthrottle ::
  "write_handler \<times> storage_proxy \<Rightarrow> write_handler \<times> storage_proxy" where
  "handler_unthrottle hs =
     (let (h, s) = hs
      in (h\<lparr>throttled := False, ready := set_value () (ready h)\<rparr>,
          s\<lparr>background_write_bytes := background_write_bytes s + int (mutation_size h)\<rparr>))"

definition run_resume ::
  "resume \<Rightarrow> write_handler \<times> storage_proxy \<Rightarrow> write_handler \<times> storage_proxy" where
  "run_resume k hs =
     (case k of
        Resume_failure \<Rightarrow> hs
      | Resume_signal \<Rightarrow>
          let (h, s) = hs
          in if need_throttle_writes s
             then (h\<lparr>throttled := True\<rparr>,
                   s\<lparr>throttled_writes := throttled_writes s @ [h_id h]\<rparr>)
             else handler_unthrottle (h, s))"

definition delay ::
  "bool \<Rightarrow> resume \<Rightarrow> write_handler \<times> storage_proxy \<Rightarrow> write_handler \<times> storage_proxy" where
  "delay delayed k hs =
     (if \<not> delayed then run_resume k hs
      else let (h, s) = hs in (h, s\<lparr>sleeping := sleeping s @ [(h_id h, k)]\<rparr>))"

definition signal ::
  "bool \<Rightarrow> nat \<Rightarrow> write_handler \<times> storage_proxy \<Rightarrow> write_handler \<times> storage_proxy" where
  "signal delayed nr hs =
     (let (h0, s) = hs;
          h = h0\<lparr>cl_acks := cl_acks h0 + nr\<rparr>
      in if \<not> cl_achieved h \<and> cl_acks h \<ge> total_block_for h
         then delay delayed Resume_signal (h\<lparr>cl_achieved := True\<rparr>, s)
         else (h, s))"

definition signal_from ::
  "locality \<Rightarrow> bool \<Rightarrow> inet_address \<Rightarrow> write_handler \<times> storage_proxy
     \<Rightarrow> write_handler \<times> storage_proxy" where
  "signal_from L delayed from hs =
     (if waited_for L (fst hs) from then signal delayed 1 hs else hs)"

definition failure ::
  "locality \<Rightarrow> bool \<Rightarrow> inet_address \<Rightarrow> nat \<Rightarrow> error \<Rightarrow> string option
     \<Rightarrow> write_handler \<times> storage_proxy \<Rightarrow> bool \<times> write_handler \<times> storage_proxy" where
  "failure L delayed from count err msg hs =
     (let (h0, s) = hs
      in if waited_for L h0 from
         then let h = h0\<lparr>failed := failed h0 + count\<rparr>
              in if total_block_for h + failed h > total_endpoints h
                 then (True, delay delayed Resume_failure (h\<lparr>h_error := err, message := msg\<rparr>, s))
                 else (False, h, s)
         else (False, h0, s))"

text \<open>
  \<^verbatim>\<open>response\<close> removes the target that answered by swapping it with the last one.
\<close>

definition swap_remove :: "'a \<Rightarrow> 'a list \<Rightarrow> 'a list" where
  "swap_remove a xs =
     (let i = length (takeWhile (\<lambda>y. y \<noteq> a) xs) in butlast (xs[i := last xs]))"

definition response ::
  "locality \<Rightarrow> bool \<Rightarrow> inet_address \<Rightarrow> write_handler \<times> storage_proxy
     \<Rightarrow> bool \<times> write_handler \<times> storage_proxy" where
  "response L delayed from hs =
     (let (h1, s1) = (if from \<in> set (h_targets (fst hs))
                      then (let (h, s) = signal_from L delayed from hs
                            in (h\<lparr>h_targets := swap_remove from (h_targets h)\<rparr>, s))
                      else hs)
      in (h_targets h1 = [], h1, s1))"



text \<open>
  The destructor fulfils the promise if that is still to be done. A write that achieved
  its consistency level and is not throttled gives its bytes back and lets the
  coordinator unthrottle the writes that wait in the queue.
\<close>

definition write_exception :: "write_handler \<Rightarrow> exn option" where
  "write_exception h =
     (if h_error h = TIMEOUT
      then Some (mutation_write_timeout_exception (h_cl h) (cl_acks h) (total_block_for h) (h_type h))
      else if h_error h = FAILURE
      then Some (mutation_write_failure_exception (h_cl h) (cl_acks h) (failed h)
                   (total_block_for h) (h_type h))
      else None)"

















text \<open>A handler as its constructor leaves it.\<close>

definition new_write_handler ::
  "response_id \<Rightarrow> handler_kind \<Rightarrow> consistency_level \<Rightarrow> nat \<Rightarrow> write_type
     \<Rightarrow> inet_address list \<Rightarrow> inet_address list \<Rightarrow> nat \<Rightarrow> nat \<Rightarrow> (inet_address \<Rightarrow> bool)
     \<Rightarrow> write_handler" where
  "new_write_handler rid k cl block_for ty targets dead tot sz sh =
     \<lparr>h_id = rid, h_kind = k, h_cl = cl, total_block_for = block_for, h_type = ty,
      h_targets = targets, h_dead_endpoints = dead, cl_acks = 0, cl_achieved = False,
      throttled = False, h_error = NONE, message = None, failed = 0, all_failures = 0,
      total_endpoints = tot, ready = Pending, mutation_size = sz, store_hint = sh\<rparr>"









definition any_write :: write_handler where
  "any_write =
     new_write_handler 8 Write_response_handler ANY 1 SIMPLE [1] [] 1 100 (\<lambda>_. True)"

definition one_write :: write_handler where
  "one_write =
     new_write_handler 9 Write_response_handler ONE 1 SIMPLE [1] [] 1 100 (\<lambda>_. True)"



subsection \<open>Invariants used in the proofs\<close>

text \<open>
  While the promise of an accept round is still engaged, the counters of the tracker are
  the numbers of the answers seen so far, and no answer was a timeout.
\<close>

definition accept_counted :: "accept_reply list \<Rightarrow> accept_request_tracker \<Rightarrow> bool" where
  "accept_counted rs t \<longleftrightarrow>
     a_p t \<and> a_future t = Pending
     \<and> accepts t = count_list rs (Accept_value True)
     \<and> rejects t = count_list rs (Accept_value False)
     \<and> a_errors t = count_list rs Accept_error
     \<and> Accept_timeout \<notin> set rs"

text \<open>
  The state of a prepare round after a list of answers, and what it means for a summary
  to hold the newest accepted proposal and the newest commit among the promises of a list
  of answers.
\<close>

definition prepare_run ::
  "paxos_response_handler \<Rightarrow> (inet_address \<times> prepare_reply) list
     \<Rightarrow> prepare_summary \<times> prepare_request_tracker" where
  "prepare_run h rs = foldl (\<lambda>st r. prepare_handle_one_msg h r st)
                      (prepare_summary_init, prepare_request_tracker_init) rs"

definition accepted_by :: "(inet_address \<times> prepare_reply) list \<Rightarrow> proposal set" where
  "accepted_by rs = {a. \<exists>peer pr. (peer, Prepare_promise pr) \<in> set rs \<and> accepted_proposal pr = Some a}"

definition committed_by :: "(inet_address \<times> prepare_reply) list \<Rightarrow> proposal set" where
  "committed_by rs = {c. \<exists>peer pr. (peer, Prepare_promise pr) \<in> set rs \<and> promise_most_recent_commit pr = Some c}"

definition newest_of :: "proposal set \<Rightarrow> proposal option \<Rightarrow> bool" where
  "newest_of A m \<longleftrightarrow>
     (case m of None \<Rightarrow> A = {}
      | Some x \<Rightarrow> x \<in> A \<and> (\<forall>a\<in>A. timestamp (ballot a) \<le> timestamp (ballot x)))"

definition summarises :: "(inet_address \<times> prepare_reply) list \<Rightarrow> prepare_summary \<Rightarrow> bool" where
  "summarises rs s \<longleftrightarrow>
     newest_of (accepted_by rs) (most_recent_proposal s)
     \<and> newest_of (committed_by rs) (most_recent_commit s)"

definition merge_promise :: "inet_address \<Rightarrow> promise \<Rightarrow> prepare_summary \<Rightarrow> prepare_summary" where
  "merge_promise peer reply summary =
     (let mrc_ballot = (case promise_most_recent_commit reply of
                          None \<Rightarrow> min_time_UUID | Some c \<Rightarrow> ballot c);
          s1 = (case promise_most_recent_commit reply of
                  None \<Rightarrow> summary
                | Some c \<Rightarrow>
                    (case most_recent_commit summary of
                       None \<Rightarrow> summary\<lparr>most_recent_commit := Some c\<rparr>
                     | Some m \<Rightarrow>
                         if timestamp (ballot m) < timestamp (ballot c)
                         then summary\<lparr>most_recent_commit := Some c\<rparr> else summary));
          s2 = s1\<lparr>committed_ballots_by_replica :=
                    emplace peer mrc_ballot (committed_ballots_by_replica s1)\<rparr>
      in (case accepted_proposal reply of
                  None \<Rightarrow> s2
                | Some a \<Rightarrow>
                    let s' = update_most_recent_promised_ballot (ballot a) s2
                    in if most_recent_proposal s' = None
                          \<or> optional_proposal_gt (Some a) (most_recent_proposal s')
                       then s'\<lparr>most_recent_proposal := Some a\<rparr> else s'))"





text \<open>
  The timer of the speculating executor has sent nothing while it is armed, and at most
  one request, to the last target, afterwards; only the speculating executor has one.
\<close>

definition speculation_inv :: "read_executor \<Rightarrow> read_run \<Rightarrow> bool" where
  "speculation_inv ex st \<longleftrightarrow>
     (run_timer_armed st \<longrightarrow> run_speculated st = [] \<and> kind ex = Speculating)
     \<and> (run_speculated st = []
          \<or> kind ex = Speculating
             \<and> (run_speculated st = [Digest_request (last (ex_targets ex))]
                \<or> run_speculated st = [Data_request (last (ex_targets ex)) True]))"


text \<open>
  The state of the coordinator's write handlers. A handler is in one of four phases: its
  consistency level is not achieved (the promise is pending); achieved with the
  continuation of \<^verbatim>\<open>signal\<close> asleep; achieved and throttled; achieved and the promise
  fulfilled. A destroyed handler has the outcome that its last state calls for.
\<close>

definition signal_sleepers :: "(response_id \<times> resume) list \<Rightarrow> response_id \<Rightarrow> nat" where
  "signal_sleepers sl rid = count_list sl (rid, Resume_signal)"

definition handler_ok ::
  "(response_id \<times> resume) list \<Rightarrow> response_id list \<Rightarrow> response_id \<Rightarrow> write_handler \<Rightarrow> bool" where
  "handler_ok sl q rid h \<longleftrightarrow>
     h_id h = rid \<and>
     (if \<not> cl_achieved h
      then ready h = Pending \<and> \<not> throttled h \<and> signal_sleepers sl rid = 0 \<and> rid \<notin> set q
      else if signal_sleepers sl rid \<noteq> 0
      then signal_sleepers sl rid = 1 \<and> ready h = Pending \<and> \<not> throttled h \<and> rid \<notin> set q
      else if throttled h then ready h = Pending
      else ready h = Ready () \<and> rid \<notin> set q)"

definition outcome_ok :: "write_handler \<Rightarrow> bool" where
  "outcome_ok d \<longleftrightarrow>
     ready d = (if cl_achieved d then Ready ()
                else case write_exception d of Some e \<Rightarrow> Failed e | None \<Rightarrow> Pending)"

definition core_inv :: "storage_proxy \<Rightarrow> bool" where
  "core_inv s \<longleftrightarrow>
     distinct (throttled_writes s)
     \<and> (\<forall>rid h. objects s rid = Some h \<longrightarrow> handler_ok (sleeping s) (throttled_writes s) rid h)
     \<and> (\<forall>rid d. destroyed s rid = Some d \<longrightarrow> outcome_ok d)"







text \<open>
  The passes of \<^verbatim>\<open>begin_and_repair_paxos\<close> that went round the loop: the client state,
  the least timestamp and the number of contentions at the top of the next pass, with
  the actions taken so far, when every pass of the script ended with another turn of the
  loop; \<open>None\<close> when one of them left the loop.
\<close>

fun loop_after ::
  "'cs collaborators \<Rightarrow> paxos_response_handler \<Rightarrow> 'cs \<Rightarrow> int \<Rightarrow> nat \<Rightarrow> round_env list
     \<Rightarrow> ('cs \<times> int \<times> nat \<times> action list) option" where
  "loop_after C h cs mn c [] = Some (cs, mn, c, [])"
| "loop_after C h cs mn c (e # es) =
     (if now_after_cas_timeout e then None
      else let (bm, cs') = get_timestamp_for_paxos C cs mn;
               b = get_random_time_UUID_from_micros bm (uuid_random e)
           in case paxos_round C h b mn c e of
                (Continue mn' c', acts) \<Rightarrow>
                  (case loop_after C h cs' mn' c' es of
                     None \<Rightarrow> None
                   | Some (cs2, mn2, c2, acts2) \<Rightarrow> Some (cs2, mn2, c2, acts @ acts2))
              | (Finish r, acts) \<Rightarrow> None)"

section \<open>Properties\<close>

subsection \<open>Participants of a lightweight transaction\<close>

lemma paxos_live_le:
  "length (paxos_live T cl) \<le> length (paxos_pending T cl) + length (paxos_natural T cl)"
  unfolding paxos_live_def
  by (metis add.commute length_append length_filter_le)

text \<open>
  Claim C10, as the code has it. The required count is always the quorum of the natural
  endpoints plus the pending ones, and too few live endpoints give the ordinary
  unavailable exception, whatever the number of pending endpoints. With more than one
  pending endpoint (after the filtering the function does) the operation is refused in
  every case; the exception carries the impossible count \<open>participants + 1\<close>, which no
  number of live endpoints reaches, exactly when enough endpoints are alive for the first
  check to pass.
\<close>

theorem get_paxos_participants_spec:
  fixes T :: topology and cl :: consistency_level
  defines "n \<equiv> length (paxos_natural T cl)"
    and "p \<equiv> length (paxos_pending T cl)"
    and "l \<equiv> length (paxos_live T cl)"
  shows "(l < n div 2 + 1 + p \<longrightarrow>
            get_paxos_participants T cl = Inl (Unavailable cl (n div 2 + 1 + p) l))
       \<and> (n div 2 + 1 + p \<le> l \<and> 1 < p \<longrightarrow>
            get_paxos_participants T cl = Inl (Unavailable_pending p cl (p + n + 1) l)
            \<and> l < p + n + 1)
       \<and> (n div 2 + 1 + p \<le> l \<and> p \<le> 1 \<longrightarrow>
            get_paxos_participants T cl =
              Inr \<lparr>endpoints = sort_endpoints_by_proximity T (paxos_live T cl),
                   required_participants = n div 2 + 1 + p,
                   has_dead_endpoints = (p + n \<noteq> l)\<rparr>)
       \<and> (1 < p \<longrightarrow> (\<exists>e. get_paxos_participants T cl = Inl e))"
proof -
  have "l \<le> p + n"
    unfolding l_def p_def n_def by (rule paxos_live_le)
  then show ?thesis
    unfolding n_def p_def l_def get_paxos_participants_def Let_def
    by auto
qed

theorem get_paxos_participants_spec_witness:
  "get_paxos_participants (joining_cluster [4, 5] (\<lambda>_. True)) SERIAL
     = Inl (Unavailable_pending 2 SERIAL 6 5)
   \<and> get_paxos_participants (joining_cluster [4, 5] (\<lambda>e. e < 4)) SERIAL
     = Inl (Unavailable SERIAL 4 3)
   \<and> get_paxos_participants (joining_cluster [4] (\<lambda>e. e \<noteq> 2)) SERIAL
     = Inr \<lparr>endpoints = [1, 3, 4], required_participants = 3, has_dead_endpoints = True\<rparr>"
proof -
  have nat: "\<And>q a. paxos_natural (joining_cluster q a) SERIAL = [1, 2, 3]"
    by (simp add: paxos_natural_def joining_cluster_def)
  have pend2: "\<And>a. paxos_pending (joining_cluster [4, 5] a) SERIAL = [4, 5]"
    by (simp add: paxos_pending_def paxos_natural_def joining_cluster_def)
  have pend1: "\<And>a. paxos_pending (joining_cluster [4] a) SERIAL = [4]"
    by (simp add: paxos_pending_def paxos_natural_def joining_cluster_def)
  have live1: "paxos_live (joining_cluster [4, 5] (\<lambda>_. True)) SERIAL = [1, 2, 3, 4, 5]"
    by (simp add: paxos_live_def nat pend2) (simp add: joining_cluster_def)
  have live2: "paxos_live (joining_cluster [4, 5] (\<lambda>e. e < 4)) SERIAL = [1, 2, 3]"
    by (simp add: paxos_live_def nat pend2) (simp add: joining_cluster_def)
  have live3: "paxos_live (joining_cluster [4] (\<lambda>e. e \<noteq> 2)) SERIAL = [1, 3, 4]"
    by (simp add: paxos_live_def nat pend1) (simp add: joining_cluster_def)
  have srt: "\<And>q a xs. sort_endpoints_by_proximity (joining_cluster q a) xs = xs"
    by (simp add: joining_cluster_def)
  show ?thesis
    using get_paxos_participants_spec [of "joining_cluster [4, 5] (\<lambda>_. True)" SERIAL]
      get_paxos_participants_spec [of "joining_cluster [4, 5] (\<lambda>e. e < 4)" SERIAL]
      get_paxos_participants_spec [of "joining_cluster [4] (\<lambda>e. e \<noteq> 2)" SERIAL]
    by (simp add: nat pend1 pend2 live1 live2 live3 srt)
qed

text \<open>
  The claim as written fails when too few endpoints are alive: with three natural and two
  pending endpoints and nobody alive, the exception asks for 4 participants, not for
  \<open>participants + 1 = 6\<close>, and 4 is a number of live nodes the cluster can have.
\<close>

theorem get_paxos_participants_counterexample:
  "get_paxos_participants (joining_cluster [4, 5] (\<lambda>_. False)) SERIAL = Inl (Unavailable SERIAL 4 0)
   \<and> length (paxos_pending (joining_cluster [4, 5] (\<lambda>_. False)) SERIAL) = 2
   \<and> (4::nat) \<noteq> length (paxos_pending (joining_cluster [4, 5] (\<lambda>_. False)) SERIAL)
              + length (paxos_natural (joining_cluster [4, 5] (\<lambda>_. False)) SERIAL) + 1"
  by (simp add: get_paxos_participants_def paxos_live_def paxos_pending_def
      paxos_natural_def joining_cluster_def)

subsection \<open>The accept phase\<close>

lemma count_list_length3:
  "Accept_timeout \<notin> set rs \<Longrightarrow>
   count_list rs (Accept_value True) + count_list rs (Accept_value False)
     + count_list rs Accept_error = length rs"
proof (induction rs)
  case Nil
  then show ?case by simp
next
  case (Cons r rs)
  then show ?case by (cases r) auto
qed

lemma accept_run_snoc:
  "accept_run h f (rs @ [r]) = accept_handle_one_msg h f r (accept_run h f rs)"
  by (simp add: accept_run_def)

lemma accept_frozen: "\<not> a_p t \<Longrightarrow> accept_handle_one_msg h f r t = t"
  by (simp add: accept_handle_one_msg_def Let_def)

lemma accept_frozen_run:
  "\<not> a_p (accept_run h f rs) \<Longrightarrow> accept_run h f (rs @ ss) = accept_run h f rs"
proof (induction ss rule: rev_induct)
  case Nil
  then show ?case by simp
next
  case (snoc s ss)
  then show ?case
    by (metis accept_frozen accept_run_snoc append_assoc)
qed

lemma accept_engaged_counted:
  "a_p (accept_run h f rs) \<Longrightarrow> accept_counted rs (accept_run h f rs)"
proof (induction rs rule: rev_induct)
  case Nil
  then show ?case by (simp add: accept_run_def accept_counted_def accept_request_tracker_init_def)
next
  case (snoc r rs)
  have eng: "a_p (accept_run h f rs)"
  proof (rule ccontr)
    assume "\<not> a_p (accept_run h f rs)"
    then have "accept_run h f (rs @ [r]) = accept_run h f rs" by (rule accept_frozen_run)
    with snoc.prems \<open>\<not> a_p (accept_run h f rs)\<close> show False by simp
  qed
  then have c: "accept_counted rs (accept_run h f rs)" by (rule snoc.IH)
  from snoc.prems c show ?case
    unfolding accept_run_snoc
    by (cases r)
       (auto simp: accept_handle_one_msg_def Let_def accept_counted_def a_set_value_def
          a_set_exception_def split: if_splits bool.splits)
qed


lemma all_rejects:
  assumes "Accept_timeout \<notin> set rs" "count_list rs (Accept_value True) = 0"
    "count_list rs Accept_error = 0"
  shows "\<forall>r\<in>set rs. r = Accept_value False"
proof
  fix r assume "r \<in> set rs"
  with assms show "r = Accept_value False"
    by (cases r) (auto simp: count_list_0_iff)
qed

lemma accept_rejected_only_by_all:
  "accept_proposal h True rs = Ready False \<Longrightarrow>
   \<exists>pre post. rs = pre @ post \<and> length pre = length (live_endpoints h)
     \<and> (\<forall>r\<in>set pre. r = Accept_value False)"
proof (induction rs rule: rev_induct)
  case Nil
  then show ?case
    by (simp add: accept_proposal_def accept_run_def accept_request_tracker_init_def)
next
  case (snoc r rs)
  show ?case
  proof (cases "a_p (accept_run h True rs)")
    case False
    then have "accept_run h True (rs @ [r]) = accept_run h True rs"
      by (rule accept_frozen_run)
    with snoc.prems have "accept_proposal h True rs = Ready False"
      by (simp add: accept_proposal_def)
    then obtain pre post where "rs = pre @ post" "length pre = length (live_endpoints h)"
      "\<forall>r\<in>set pre. r = Accept_value False"
      using snoc.IH by blast
    then have "rs @ [r] = pre @ (post @ [r])" by simp
    with \<open>length pre = length (live_endpoints h)\<close> \<open>\<forall>r\<in>set pre. r = Accept_value False\<close>
    show ?thesis by blast
  next
    case True
    then have c: "accept_counted rs (accept_run h True rs)" by (rule accept_engaged_counted)
    from snoc.prems have f: "a_future (accept_handle_one_msg h True r (accept_run h True rs)) = Ready False"
      by (simp add: accept_proposal_def accept_run_snoc)
    from c f have "Accept_timeout \<notin> set (rs @ [r])
        \<and> count_list (rs @ [r]) (Accept_value True) = 0
        \<and> count_list (rs @ [r]) Accept_error = 0
        \<and> count_list (rs @ [r]) (Accept_value True) + count_list (rs @ [r]) (Accept_value False)
            + count_list (rs @ [r]) Accept_error = length (live_endpoints h)"
      by (cases r)
         (auto simp: accept_handle_one_msg_def Let_def accept_counted_def a_set_value_def
            a_set_exception_def set_value_def set_exception_def all_replies_def
            split: if_splits bool.splits)
    then have "length (rs @ [r]) = length (live_endpoints h)"
      and "\<forall>x\<in>set (rs @ [r]). x = Accept_value False"
      using count_list_length3 [of "rs @ [r]"] all_rejects [of "rs @ [r]"] by auto
    then show ?thesis by (metis append_Nil2)
  qed
qed

lemma accept_own_value_waits:
  "Accept_timeout \<notin> set rs \<Longrightarrow>
   count_list rs (Accept_value True) < prh_required_participants h \<Longrightarrow>
   prh_required_participants h + count_list rs Accept_error \<le> length (live_endpoints h) \<Longrightarrow>
   length rs < length (live_endpoints h) \<Longrightarrow>
   a_p (accept_run h True rs)"
proof (induction rs rule: rev_induct)
  case Nil
  then show ?case by (simp add: accept_run_def accept_request_tracker_init_def)
next
  case (snoc r rs)
  then have "a_p (accept_run h True rs)" by auto
  then have c: "accept_counted rs (accept_run h True rs)" by (rule accept_engaged_counted)
  have len: "count_list rs (Accept_value True) + count_list rs (Accept_value False)
     + count_list rs Accept_error = length rs"
    using snoc.prems(1) by (intro count_list_length3) simp
  from snoc.prems c len show ?case
    unfolding accept_run_snoc
    by (cases r)
       (auto simp: accept_handle_one_msg_def Let_def accept_counted_def a_set_value_def
          a_set_exception_def all_replies_def non_accept_replies_def
          split: if_splits bool.splits)
qed

lemma accept_partial_timeout:
  assumes "Accept_timeout \<notin> set rs"
    and "count_list rs (Accept_value True) < prh_required_participants h"
    and "prh_required_participants h + count_list rs Accept_error \<le> length (live_endpoints h)"
    and "length rs = length (live_endpoints h)"
    and "0 < count_list rs (Accept_value True) \<or> 0 < count_list rs Accept_error"
  shows "accept_proposal h True rs =
     Failed (mutation_write_timeout_exception (cl_for_paxos h)
               (count_list rs (Accept_value True)) (prh_required_participants h) CAS)"
proof -
  from assms(4,5) have "rs \<noteq> []" by auto
  then obtain ss r where rs: "rs = ss @ [r]" by (meson rev_exhaust)
  have "a_p (accept_run h True ss)"
    using assms unfolding rs by (intro accept_own_value_waits) auto
  then have c: "accept_counted ss (accept_run h True ss)" by (rule accept_engaged_counted)
  have len: "count_list ss (Accept_value True) + count_list ss (Accept_value False)
     + count_list ss Accept_error = length ss"
    using assms(1) unfolding rs by (intro count_list_length3) simp
  from assms c len show ?thesis
    unfolding rs accept_proposal_def accept_run_snoc
    by (cases r)
       (auto simp: accept_handle_one_msg_def Let_def accept_counted_def a_set_value_def
          a_set_exception_def set_exception_def set_value_def all_replies_def non_accept_replies_def
          split: if_splits bool.splits)
qed

lemma accept_stale_fails_fast:
  assumes "a_p (accept_run h False rs)"
    and "accepts (accept_run h False rs) \<noteq> prh_required_participants h"
    and "prh_required_participants h + a_errors (accept_run h False rs) \<le> length (live_endpoints h)"
    and "prh_required_participants h + (rejects (accept_run h False rs) + 1)
           + a_errors (accept_run h False rs) > length (live_endpoints h)"
  shows "accept_proposal h False (rs @ [Accept_value False]) = Ready False"
proof -
  have c: "accept_counted rs (accept_run h False rs)"
    using assms(1) by (rule accept_engaged_counted)
  with assms show ?thesis
    unfolding accept_proposal_def accept_run_snoc
    by (auto simp: accept_handle_one_msg_def Let_def accept_counted_def a_set_value_def
          set_value_def non_accept_replies_def)
qed

text \<open>
  Claim C4, as the code has it. (1) When a stale proposal is replayed
  (\<open>timeout_if_partially_accepted = False\<close>), the reject that makes a quorum of accepts
  unreachable concludes the round with \<open>false\<close> at once. (2) For the coordinator's own
  value a \<open>false\<close> result means that every live endpoint has replied and each of them
  rejected. (3) For the coordinator's own value, when every live endpoint has replied, no
  reply was a timeout, the accepts fell short of the quorum and the errors stayed within
  what the quorum tolerates, at least one accept or error makes the round end in a write
  timeout carrying the number of accepts.
\<close>

theorem accept_proposal_policies:
  "(a_p (accept_run h False rs1)
      \<and> accepts (accept_run h False rs1) \<noteq> prh_required_participants h
      \<and> prh_required_participants h + a_errors (accept_run h False rs1)
           \<le> length (live_endpoints h)
      \<and> length (live_endpoints h) < prh_required_participants h
           + (rejects (accept_run h False rs1) + 1) + a_errors (accept_run h False rs1)
      \<longrightarrow> accept_proposal h False (rs1 @ [Accept_value False]) = Ready False)
   \<and> (accept_proposal h True rs2 = Ready False
      \<longrightarrow> (\<exists>pre post. rs2 = pre @ post \<and> length pre = length (live_endpoints h)
            \<and> (\<forall>r\<in>set pre. r = Accept_value False)))
   \<and> (Accept_timeout \<notin> set rs3
      \<and> length rs3 = length (live_endpoints h)
      \<and> count_list rs3 (Accept_value True) < prh_required_participants h
      \<and> prh_required_participants h + count_list rs3 Accept_error \<le> length (live_endpoints h)
      \<and> (0 < count_list rs3 (Accept_value True) \<or> 0 < count_list rs3 Accept_error)
      \<longrightarrow> accept_proposal h True rs3 =
            Failed (mutation_write_timeout_exception (cl_for_paxos h)
                      (count_list rs3 (Accept_value True)) (prh_required_participants h) CAS))"
  using accept_stale_fails_fast [of h rs1] accept_rejected_only_by_all [of h rs2]
    accept_partial_timeout [of rs3 h]
  by blast

theorem accept_proposal_policies_witness:
  "accept_proposal three_replicas False [Accept_value False, Accept_value False] = Ready False
   \<and> (\<exists>pre post. [Accept_value False, Accept_value False, Accept_value False] = pre @ post
         \<and> length pre = length (live_endpoints three_replicas)
         \<and> (\<forall>r\<in>set pre. r = Accept_value False))
   \<and> accept_proposal three_replicas True [Accept_value False, Accept_value True, Accept_error]
       = Failed (mutation_write_timeout_exception SERIAL 1 2 CAS)"
proof -
  have r1: "accept_run three_replicas False [Accept_value False]
      = accept_request_tracker_init\<lparr>rejects := 1\<rparr>"
    by (simp add: accept_run_def accept_handle_one_msg_def three_replicas_def Let_def
        accept_request_tracker_init_def non_accept_replies_def all_replies_def)
  have r2: "accept_proposal three_replicas True
      [Accept_value False, Accept_value False, Accept_value False] = Ready False"
    by (simp add: accept_proposal_def accept_run_def accept_handle_one_msg_def
        three_replicas_def Let_def accept_request_tracker_init_def non_accept_replies_def
        all_replies_def a_set_value_def set_value_def)
  have p: "prh_required_participants three_replicas = 2"
    "length (live_endpoints three_replicas) = 3" "cl_for_paxos three_replicas = SERIAL"
    by (simp_all add: three_replicas_def)
  show ?thesis
    using accept_proposal_policies [of three_replicas "[Accept_value False]"
        "[Accept_value False, Accept_value False, Accept_value False]"
        "[Accept_value False, Accept_value True, Accept_error]"] r2
    by (simp add: r1 p accept_request_tracker_init_def)
qed

text \<open>
  The claim as written fails for the coordinator's own value when the errors alone make
  the quorum unreachable: with three live replicas and a quorum of two, one reject and two
  errors give a write failure, not a write timeout.
\<close>

theorem accept_proposal_counterexample:
  "accept_proposal three_replicas True [Accept_value False, Accept_error, Accept_error]
     = Failed (mutation_write_failure_exception SERIAL 1 2 2 CAS)"
  by (simp add: accept_proposal_def accept_run_def accept_handle_one_msg_def
      three_replicas_def Let_def accept_request_tracker_init_def non_accept_replies_def
      non_error_replies_def all_replies_def a_set_exception_def set_exception_def)

subsection \<open>The prepare phase\<close>

lemma prepare_ballot_run: "prepare_ballot h rs = p_future (snd (prepare_run h rs))"
  by (simp add: prepare_ballot_def prepare_run_def)

lemma prepare_run_snoc:
  "prepare_run h (rs @ [r]) = prepare_handle_one_msg h r (prepare_run h rs)"
  by (simp add: prepare_run_def)

lemma prepare_frozen: "\<not> p_p (snd st) \<Longrightarrow> prepare_handle_one_msg h r st = st"
  by (cases st; cases r; cases "snd r")
     (auto simp: prepare_handle_one_msg_def Let_def split: prod.splits)

lemma prepare_frozen_run:
  "\<not> p_p (snd (prepare_run h rs)) \<Longrightarrow> prepare_run h (rs @ ss) = prepare_run h rs"
proof (induction ss rule: rev_induct)
  case Nil
  then show ?case by simp
next
  case (snoc s ss)
  then show ?case
    by (metis prepare_frozen prepare_run_snoc append_assoc)
qed

lemma accepted_by_snoc_promise:
  "accepted_by (rs @ [(peer, Prepare_promise pr)]) =
     accepted_by rs \<union> (case accepted_proposal pr of None \<Rightarrow> {} | Some a \<Rightarrow> {a})"
  by (auto simp: accepted_by_def split: option.splits)

lemma committed_by_snoc_promise:
  "committed_by (rs @ [(peer, Prepare_promise pr)]) =
     committed_by rs \<union> (case promise_most_recent_commit pr of None \<Rightarrow> {} | Some a \<Rightarrow> {a})"
  by (auto simp: committed_by_def split: option.splits)

lemma accepted_by_snoc_other:
  "(\<And>pr. r \<noteq> Prepare_promise pr) \<Longrightarrow> accepted_by (rs @ [(peer, r)]) = accepted_by rs"
  "(\<And>pr. r \<noteq> Prepare_promise pr) \<Longrightarrow> committed_by (rs @ [(peer, r)]) = committed_by rs"
  by (auto simp: accepted_by_def committed_by_def)

lemma newest_of_insert:
  "newest_of A m \<Longrightarrow>
   newest_of (A \<union> {a})
     (case m of None \<Rightarrow> Some a
      | Some x \<Rightarrow> if timestamp (ballot x) < timestamp (ballot a) then Some a else Some x)"
  by (auto simp: newest_of_def split: option.splits)

lemma on_promise_merge:
  "on_promise h peer pr (s, t) =
     (let (s4, t4) = check_digests pr (merge_promise peer pr s, t)
      in if length (committed_ballots_by_replica s4) = prh_required_participants h
         then (s4, p_set_value s4 t4) else (s4, t4))"
  by (simp add: on_promise_def merge_promise_def Let_def)

lemma merge_promise_fields:
  "most_recent_proposal (merge_promise peer pr s) =
           (case accepted_proposal pr of None \<Rightarrow> most_recent_proposal s
            | Some a \<Rightarrow> (case most_recent_proposal s of None \<Rightarrow> Some a
                | Some x \<Rightarrow> if timestamp (ballot x) < timestamp (ballot a) then Some a else Some x))"
  "most_recent_commit (merge_promise peer pr s) =
           (case promise_most_recent_commit pr of None \<Rightarrow> most_recent_commit s
            | Some a \<Rightarrow> (case most_recent_commit s of None \<Rightarrow> Some a
                | Some x \<Rightarrow> if timestamp (ballot x) < timestamp (ballot a) then Some a else Some x))"
  "promised (merge_promise peer pr s) = promised s"
  by (simp_all add: merge_promise_def Let_def update_most_recent_promised_ballot_def
      optional_proposal_gt_def proposal_gt_def split: option.splits)

lemma check_digests_keeps:
  "check_digests pr (s, t) = (s', t') \<Longrightarrow>
   most_recent_proposal s' = most_recent_proposal s \<and> most_recent_commit s' = most_recent_commit s
   \<and> promised s' = promised s
   \<and> committed_ballots_by_replica s' = committed_ballots_by_replica s
   \<and> p_p t' = p_p t \<and> p_future t' = p_future t"
  by (auto simp: check_digests_def Let_def split: if_splits option.splits prod.splits data_or_digest.splits)

lemma on_promise_summary:
  assumes "on_promise h peer pr (s, t) = (s', t')"
  shows "most_recent_proposal s' = most_recent_proposal (merge_promise peer pr s)"
    and "most_recent_commit s' = most_recent_commit (merge_promise peer pr s)"
    and "promised s' = promised s"
    and "p_p t \<Longrightarrow> p_future t = Pending \<Longrightarrow>
         p_future t' = Pending \<and> p_p t' \<or> p_future t' = Ready s' \<and> \<not> p_p t'"
    and "p_p t \<Longrightarrow> \<not> p_p t' \<Longrightarrow>
         length (committed_ballots_by_replica s') = prh_required_participants h"
proof -
  obtain s4 t4 where cd: "check_digests pr (merge_promise peer pr s, t) = (s4, t4)"
    by (cases "check_digests pr (merge_promise peer pr s, t)")
  note k = check_digests_keeps [OF cd]
  from assms cd have s': "s' = s4"
    and t': "t' = (if length (committed_ballots_by_replica s4) = prh_required_participants h
                   then p_set_value s4 t4 else t4)"
    by (auto simp: on_promise_merge split: if_splits)
  show "most_recent_proposal s' = most_recent_proposal (merge_promise peer pr s)"
    and "most_recent_commit s' = most_recent_commit (merge_promise peer pr s)"
    and "promised s' = promised s"
    using k s' by (simp_all add: merge_promise_fields)
  show "p_p t \<Longrightarrow> p_future t = Pending \<Longrightarrow>
         p_future t' = Pending \<and> p_p t' \<or> p_future t' = Ready s' \<and> \<not> p_p t'"
    using k s' t' by (simp add: p_set_value_def set_value_def)
  show "p_p t \<Longrightarrow> \<not> p_p t' \<Longrightarrow>
         length (committed_ballots_by_replica s') = prh_required_participants h"
    using k s' t' by (simp add: p_set_value_def split: if_splits)
qed

lemma prepare_step:
  assumes "prepare_run h rs = (s, t)" "p_p t" "p_future t = Pending" "promised s" "summarises rs s"
    and "prepare_run h (rs @ [r]) = (s', t')"
  shows "(p_p t' \<longrightarrow> p_future t' = Pending \<and> promised s' \<and> summarises (rs @ [r]) s')
       \<and> (\<not> p_p t' \<longrightarrow> (\<forall>x. p_future t' = Ready x \<and> promised x \<longrightarrow>
              x = s' \<and> summarises (rs @ [r]) s'
              \<and> length (committed_ballots_by_replica s') = prh_required_participants h))"
proof (cases r)
  case (Pair peer rep)
  show ?thesis
  proof (cases rep)
    case Prepare_timeout
    with assms Pair show ?thesis
      by (auto simp: prepare_run_snoc prepare_handle_one_msg_def p_set_exception_def
          set_exception_def)
  next
    case Prepare_error
    with assms Pair show ?thesis
      by (auto simp: prepare_run_snoc prepare_handle_one_msg_def p_set_exception_def
          set_exception_def Let_def summarises_def accepted_by_snoc_other split: if_splits)
  next
    case (Prepare_rejected u)
    with assms Pair show ?thesis
      by (auto simp: prepare_run_snoc prepare_handle_one_msg_def p_set_value_def
          set_value_def Let_def update_most_recent_promised_ballot_def split: if_splits)
  next
    case (Prepare_promise pr)
    with assms Pair have op: "on_promise h peer pr (s, t) = (s', t')"
      by (simp add: prepare_run_snoc prepare_handle_one_msg_def)
    note f = on_promise_summary [OF op]
    have sm: "summarises (rs @ [r]) s'"
      using assms(5) newest_of_insert [of "accepted_by rs" "most_recent_proposal s"]
        newest_of_insert [of "committed_by rs" "most_recent_commit s"]
      unfolding summarises_def Pair Prepare_promise accepted_by_snoc_promise
        committed_by_snoc_promise f(1) f(2) merge_promise_fields
      by (auto split: option.splits)
    have len: "\<not> p_p t' \<Longrightarrow> length (committed_ballots_by_replica s') = prh_required_participants h"
      using f(5) assms(2) by simp
    from f(3) f(4) [OF assms(2,3)] assms(4) sm len show ?thesis by auto
  qed
qed

lemma prepare_engaged:
  "prepare_run h rs = (s, t) \<Longrightarrow> p_p t \<Longrightarrow>
   p_future t = Pending \<and> promised s \<and> summarises rs s"
proof (induction rs arbitrary: s t rule: rev_induct)
  case Nil
  then show ?case
    by (auto simp: prepare_run_def prepare_summary_init_def prepare_request_tracker_init_def
        summarises_def newest_of_def accepted_by_def committed_by_def)
next
  case (snoc r rs)
  obtain s0 t0 where st: "prepare_run h rs = (s0, t0)" by (cases "prepare_run h rs")
  have "p_p t0"
  proof (rule ccontr)
    assume "\<not> p_p t0"
    with st have "prepare_run h (rs @ [r]) = prepare_run h rs"
      using prepare_frozen_run [of h rs "[r]"] by simp
    with snoc.prems st \<open>\<not> p_p t0\<close> show False by simp
  qed
  with st snoc.IH have "p_future t0 = Pending" "promised s0" "summarises rs s0" by auto
  with prepare_step [OF st \<open>p_p t0\<close> _ _ _ snoc.prems(1)] snoc.prems(2) show ?case by blast
qed

lemma prepare_ballot_summarises:
  "prepare_ballot h rs = Ready s \<Longrightarrow> promised s \<Longrightarrow>
   \<exists>pre post. rs = pre @ post \<and> summarises pre s
     \<and> length (committed_ballots_by_replica s) = prh_required_participants h"
proof (induction rs rule: rev_induct)
  case Nil
  then show ?case
    by (simp add: prepare_ballot_def prepare_request_tracker_init_def)
next
  case (snoc r rs)
  obtain s0 t0 where st: "prepare_run h rs = (s0, t0)" by (cases "prepare_run h rs")
  obtain s1 t1 where st1: "prepare_run h (rs @ [r]) = (s1, t1)" by (cases "prepare_run h (rs @ [r])")
  show ?case
  proof (cases "p_p t0")
    case False
    with st have "prepare_run h (rs @ [r]) = prepare_run h rs"
      using prepare_frozen_run [of h rs "[r]"] by simp
    with snoc.prems have "prepare_ballot h rs = Ready s" by (simp add: prepare_ballot_run)
    with snoc.IH snoc.prems(2) obtain pre post where "rs = pre @ post" "summarises pre s"
      "length (committed_ballots_by_replica s) = prh_required_participants h" by blast
    then have "rs @ [r] = pre @ (post @ [r])" by simp
    with \<open>summarises pre s\<close> \<open>length (committed_ballots_by_replica s) = prh_required_participants h\<close>
    show ?thesis by blast
  next
    case True
    with st prepare_engaged have e: "p_future t0 = Pending" "promised s0" "summarises rs s0" by auto
    from snoc.prems st1 have fut: "p_future t1 = Ready s" by (simp add: prepare_ballot_run)
    have "\<not> p_p t1"
    proof
      assume "p_p t1"
      with st1 prepare_engaged have "p_future t1 = Pending" by blast
      with fut show False by simp
    qed
    with prepare_step [OF st True e st1] fut snoc.prems(2)
    have "s = s1" "summarises (rs @ [r]) s1"
      "length (committed_ballots_by_replica s1) = prh_required_participants h" by auto
    then show ?thesis by (metis append_Nil2)
  qed
qed

subsection \<open>Beginning and repairing a Paxos round\<close>

lemma loop_split:
  "loop_after C h cs mn c pre = Some (cs1, mn1, c1, acts1) \<Longrightarrow>
   begin_and_repair_loop C h cs mn c (pre @ rest)
     = (case begin_and_repair_loop C h cs1 mn1 c1 rest of
          (r, a, c', cs') \<Rightarrow> (r, acts1 @ a, c', cs'))"
proof (induction pre arbitrary: cs mn c acts1)
  case Nil
  then show ?case by (simp split: prod.splits)
next
  case (Cons e pre)
  from Cons.prems have nt: "\<not> now_after_cas_timeout e" by (auto split: if_splits)
  obtain bm cs0 where g: "get_timestamp_for_paxos C cs mn = (bm, cs0)"
    by (cases "get_timestamp_for_paxos C cs mn")
  define b0 where "b0 = get_random_time_UUID_from_micros bm (uuid_random e)"
  obtain out acts0 where pr: "paxos_round C h b0 mn c e = (out, acts0)"
    by (cases "paxos_round C h b0 mn c e")
  show ?case
  proof (cases out)
    case (Finish r)
    with Cons.prems nt g pr show ?thesis by (simp add: b0_def [symmetric])
  next
    case (Continue mn' c0)
    from Cons.prems nt g pr Continue
    obtain acts2 where la: "loop_after C h cs0 mn' c0 pre = Some (cs1, mn1, c1, acts2)"
      and a1: "acts1 = acts0 @ acts2"
      by (auto simp: b0_def [symmetric] split: option.splits)
    have "begin_and_repair_loop C h cs0 mn' c0 (pre @ rest)
       = (case begin_and_repair_loop C h cs1 mn1 c1 rest of
          (r, a, c', cs') \<Rightarrow> (r, acts2 @ a, c', cs'))"
      using la by (rule Cons.IH)
    then show ?thesis using nt g pr Continue a1
      by (simp add: b0_def [symmetric] split: prod.splits)
  qed
qed

lemma loop_pass_unfinished:
  assumes "\<not> now_after_cas_timeout e" "get_timestamp_for_paxos C cs mn = (bm, cs2)"
    "b = get_random_time_UUID_from_micros bm (uuid_random e)"
    "prepare_ballot h (prepare_replies e) = Ready summary" "promised summary"
    "most_recent_proposal summary = Some p"
    "\<forall>cm. most_recent_commit summary = Some cm \<longrightarrow> timestamp (ballot cm) < timestamp (ballot p)"
  shows "(accept_proposal h False (accept_replies e) = Ready True \<and> learn_outcome e = None
          \<longrightarrow> begin_and_repair_loop C h cs mn c (e # post)
              = (case begin_and_repair_loop C h cs2
                        (micros_timestamp (most_recent_promised_ballot summary) + 1) c post of
                   (r, a, c', cs') \<Rightarrow>
                     (r, [Prepare b, Accept \<lparr>ballot = b, update = update p\<rparr> False,
                          Learn \<lparr>ballot = b, update = update p\<rparr> False] @ a, c', cs')))
       \<and> (accept_proposal h False (accept_replies e) = Ready False
          \<longrightarrow> begin_and_repair_loop C h cs mn c (e # post)
              = (case begin_and_repair_loop C h cs2
                        (micros_timestamp (most_recent_promised_ballot summary) + 1) (c + 1) post of
                   (r, a, c', cs') \<Rightarrow>
                     (r, [Prepare b, Accept \<lparr>ballot = b, update = update p\<rparr> False,
                          Sleep_approx_50ms] @ a, c', cs')))
       \<and> (accept_proposal h False (accept_replies e) = Ready True \<and> learn_outcome e \<noteq> None
          \<longrightarrow> (\<exists>x. begin_and_repair_loop C h cs mn c (e # post)
              = (Threw x, [Prepare b, Accept \<lparr>ballot = b, update = update p\<rparr> False,
                          Learn \<lparr>ballot = b, update = update p\<rparr> False], c, cs2)))
       \<and> ((\<forall>v. accept_proposal h False (accept_replies e) \<noteq> Ready v)
          \<longrightarrow> (\<exists>x. begin_and_repair_loop C h cs mn c (e # post)
              = (x, [Prepare b, Accept \<lparr>ballot = b, update = update p\<rparr> False], c, cs2)
              \<and> (\<forall>bd. x \<noteq> Returned bd)))"
proof -
  have u: "unfinished_in_progress summary = Some p"
    using assms(6,7) by (auto simp: unfinished_in_progress_def split: option.splits)
  show ?thesis
    using assms(1-5) u
    by (auto simp: paxos_round_def Let_def split_beta
        split: future.splits option.splits exn.splits)
qed


lemma unfinished_none_iff:
  "unfinished_in_progress summary = None \<longleftrightarrow>
     (\<forall>p. most_recent_proposal summary = Some p \<longrightarrow>
        (\<exists>cm. most_recent_commit summary = Some cm
           \<and> \<not> timestamp (ballot cm) < timestamp (ballot p)))"
  by (auto simp: unfinished_in_progress_def split: option.splits)

lemma paxos_round_returns_acts:
  assumes "paxos_round C h b mn c e = (Finish (Returned (b', d)), acts)"
  shows "\<exists>summary. prepare_ballot h (prepare_replies e) = Ready summary \<and> promised summary
     \<and> unfinished_in_progress summary = None \<and> d = data summary \<and> b' = b
     \<and> (acts = [Prepare b]
        \<or> acts = [Prepare b, Repair_commit (most_recent_commit summary)
                                (replicas_missing_most_recent_commit C summary b)])"
  using assms
  by (auto simp: paxos_round_def Let_def split: future.splits option.splits exn.splits if_splits)

lemma loop_returns_pass:
  "begin_and_repair_loop C h cs mn c es = (Returned (b', d), acts, c', cs') \<Longrightarrow>
   \<exists>pre e post (cs1::'cs) mn1 c1 acts1 bm summary.
     es = pre @ e # post \<and> loop_after C h cs mn c pre = Some (cs1, mn1, c1, acts1)
     \<and> \<not> now_after_cas_timeout e \<and> get_timestamp_for_paxos C cs1 mn1 = (bm, cs')
     \<and> b' = get_random_time_UUID_from_micros bm (uuid_random e)
     \<and> prepare_ballot h (prepare_replies e) = Ready summary \<and> promised summary
     \<and> unfinished_in_progress summary = None \<and> d = data summary \<and> c' = c1
     \<and> (acts = acts1 @ [Prepare b']
        \<or> acts = acts1 @ [Prepare b', Repair_commit (most_recent_commit summary)
                                (replicas_missing_most_recent_commit C summary b')])"
proof (induction es arbitrary: cs mn c acts)
  case Nil
  then show ?case by simp
next
  case (Cons e es)
  from Cons.prems have nt: "\<not> now_after_cas_timeout e" by (auto split: if_splits)
  obtain bm cs0 where g: "get_timestamp_for_paxos C cs mn = (bm, cs0)"
    by (cases "get_timestamp_for_paxos C cs mn")
  define b0 where "b0 = get_random_time_UUID_from_micros bm (uuid_random e)"
  obtain out acts0 where pr: "paxos_round C h b0 mn c e = (out, acts0)"
    by (cases "paxos_round C h b0 mn c e")
  show ?case
  proof (cases out)
    case (Continue mn' c0)
    obtain r acts2 c2 cs2 where rec: "begin_and_repair_loop C h cs0 mn' c0 es = (r, acts2, c2, cs2)"
      by (cases "begin_and_repair_loop C h cs0 mn' c0 es") auto
    with Cons.prems nt g pr Continue
    have eqs: "r = Returned (b', d)" "acts = acts0 @ acts2" "c2 = c'" "cs2 = cs'"
      by (simp_all add: b0_def [symmetric])
    with rec have "begin_and_repair_loop C h cs0 mn' c0 es = (Returned (b', d), acts2, c', cs')"
      by simp
    from Cons.IH [OF this]
    obtain pre e' post and cs1 :: 'cs and mn1 c1 acts1 bm' summary where
      *: "es = pre @ e' # post" "loop_after C h cs0 mn' c0 pre = Some (cs1, mn1, c1, acts1)"
      "\<not> now_after_cas_timeout e'" "get_timestamp_for_paxos C cs1 mn1 = (bm', cs')"
      "b' = get_random_time_UUID_from_micros bm' (uuid_random e')"
      "prepare_ballot h (prepare_replies e') = Ready summary" "promised summary"
      "unfinished_in_progress summary = None" "d = data summary" "c' = c1"
      "acts2 = acts1 @ [Prepare b']
        \<or> acts2 = acts1 @ [Prepare b', Repair_commit (most_recent_commit summary)
                                (replicas_missing_most_recent_commit C summary b')]"
      by blast
    have la: "loop_after C h cs mn c (e # pre) = Some (cs1, mn1, c1, acts0 @ acts1)"
      using nt g pr Continue *(2) by (simp add: b0_def [symmetric])
    have "e # es = (e # pre) @ e' # post" using *(1) by simp
    moreover have "acts = (acts0 @ acts1) @ [Prepare b']
        \<or> acts = (acts0 @ acts1) @ [Prepare b', Repair_commit (most_recent_commit summary)
                                (replicas_missing_most_recent_commit C summary b')]"
      using eqs(2) *(11) by auto
    ultimately show ?thesis using la *(3-10) by blast
  next
    case (Finish r)
    with Cons.prems nt g pr have r: "r = Returned (b', d)" "acts = acts0" "c' = c" "cs' = cs0"
      by (simp_all add: b0_def [symmetric])
    with pr Finish have "paxos_round C h b0 mn c e = (Finish (Returned (b', d)), acts)" by simp
    from paxos_round_returns_acts [OF this]
    obtain summary where s: "prepare_ballot h (prepare_replies e) = Ready summary"
      "promised summary" "unfinished_in_progress summary = None" "d = data summary" "b' = b0"
      "acts = [Prepare b0]
        \<or> acts = [Prepare b0, Repair_commit (most_recent_commit summary)
                                (replicas_missing_most_recent_commit C summary b0)]"
      by blast
    have "e # es = [] @ e # es" by simp
    moreover have "loop_after C h cs mn c [] = Some (cs, mn, c, [])" by simp
    moreover have "get_timestamp_for_paxos C cs mn = (bm, cs')" using g r(4) by simp
    moreover have "b' = get_random_time_UUID_from_micros bm (uuid_random e)"
      using s(5) by (simp add: b0_def)
    moreover have "acts = [] @ [Prepare b']
        \<or> acts = [] @ [Prepare b', Repair_commit (most_recent_commit summary)
                                (replicas_missing_most_recent_commit C summary b')]"
      using s(5,6) by simp
    ultimately show ?thesis using nt s(1-4) r(3) by blast
  qed
qed

lemma paxos_pass_completes:
  assumes la: "loop_after C h cs 0 c0 pre = Some (cs1, mn1, c1, acts1)"
    and nt: "\<not> now_after_cas_timeout e"
    and g: "get_timestamp_for_paxos C cs1 mn1 = (bm, cs2)"
    and b: "b = get_random_time_UUID_from_micros bm (uuid_random e)"
    and pr: "prepare_ballot h (prepare_replies e) = Ready summary" "promised summary"
    and ip: "most_recent_proposal summary = Some p"
      "\<forall>cm. most_recent_commit summary = Some cm \<longrightarrow> timestamp (ballot cm) < timestamp (ballot p)"
    and run: "begin_and_repair_paxos C h True cs c0 (pre @ e # post) = (r, acts, c', cs')"
  shows "(\<exists>rest. acts = acts1 @ [Prepare b, Accept \<lparr>ballot = b, update = update p\<rparr> False] @ rest)
     \<and> (accept_proposal h False (accept_replies e) = Ready True \<longrightarrow>
          (\<exists>rest. acts = acts1 @ [Prepare b, Accept \<lparr>ballot = b, update = update p\<rparr> False,
                                   Learn \<lparr>ballot = b, update = update p\<rparr> False] @ rest))
     \<and> (accept_proposal h False (accept_replies e) = Ready True \<and> learn_outcome e = None \<longrightarrow>
          (r, acts, c', cs')
            = (case begin_and_repair_loop C h cs2
                      (micros_timestamp (most_recent_promised_ballot summary) + 1) c1 post of
                 (r2, a2, c2, cs3) \<Rightarrow>
                   (r2, acts1 @ [Prepare b, Accept \<lparr>ballot = b, update = update p\<rparr> False,
                                 Learn \<lparr>ballot = b, update = update p\<rparr> False] @ a2, c2, cs3)))
     \<and> (accept_proposal h False (accept_replies e) = Ready False \<longrightarrow>
          (r, acts, c', cs')
            = (case begin_and_repair_loop C h cs2
                      (micros_timestamp (most_recent_promised_ballot summary) + 1) (c1 + 1) post of
                 (r2, a2, c2, cs3) \<Rightarrow>
                   (r2, acts1 @ [Prepare b, Accept \<lparr>ballot = b, update = update p\<rparr> False,
                                 Sleep_approx_50ms] @ a2, c2, cs3)))
     \<and> (\<forall>bd. r = Returned bd \<longrightarrow>
          (\<exists>c2. fst (begin_and_repair_loop C h cs2
                       (micros_timestamp (most_recent_promised_ballot summary) + 1) c2 post)
                  = Returned bd))"
proof -
  let ?mn = "micros_timestamp (most_recent_promised_ballot summary) + 1"
  let ?A = "Accept \<lparr>ballot = b, update = update p\<rparr> False"
  let ?L = "Learn \<lparr>ballot = b, update = update p\<rparr> False"
  obtain r1 a1 k1 s1 where pass: "begin_and_repair_loop C h cs1 mn1 c1 (e # post) = (r1, a1, k1, s1)"
    by (cases "begin_and_repair_loop C h cs1 mn1 c1 (e # post)") auto
  have whole: "(r, acts, c', cs') = (r1, acts1 @ a1, k1, s1)"
    using run loop_split [OF la, of "e # post"] pass
    by (simp add: begin_and_repair_paxos_def)
  note p = loop_pass_unfinished [OF nt g b pr ip, of c1 post]
  obtain r2 a2 k2 s2 where l1: "begin_and_repair_loop C h cs2 ?mn c1 post = (r2, a2, k2, s2)"
    by (cases "begin_and_repair_loop C h cs2 ?mn c1 post") auto
  obtain r3 a3 k3 s3 where l2: "begin_and_repair_loop C h cs2 ?mn (c1 + 1) post = (r3, a3, k3, s3)"
    by (cases "begin_and_repair_loop C h cs2 ?mn (c1 + 1) post") auto
  have f1: "fst (begin_and_repair_loop C h cs2 ?mn c1 post) = r2" using l1 by simp
  have f2: "fst (begin_and_repair_loop C h cs2 ?mn (c1 + 1) post) = r3" using l2 by simp
  have ret: "\<forall>bd. r = Returned bd \<longrightarrow>
          (\<exists>c2. fst (begin_and_repair_loop C h cs2 ?mn c2 post) = Returned bd)"
    if "r = r2 \<or> r = r3 \<or> (\<forall>bd. r \<noteq> Returned bd)"
    using that f1 f2 by metis
  consider (learned) "accept_proposal h False (accept_replies e) = Ready True" "learn_outcome e = None"
    | (learn_failed) "accept_proposal h False (accept_replies e) = Ready True" "learn_outcome e \<noteq> None"
    | (rejected) "accept_proposal h False (accept_replies e) = Ready False"
    | (other) "\<forall>v. accept_proposal h False (accept_replies e) \<noteq> Ready v"
    by (cases "accept_proposal h False (accept_replies e)") auto
  then show ?thesis
  proof cases
    case learned
    then have "(r1, a1, k1, s1) = (r2, [Prepare b, ?A, ?L] @ a2, k2, s2)"
      using p pass l1 by simp
    then have w: "r = r2" "acts = acts1 @ [Prepare b, ?A, ?L] @ a2" "c' = k2" "cs' = s2"
      using whole by simp_all
    show ?thesis using w learned l1 ret by simp
  next
    case learn_failed
    then obtain x where "(r1, a1, k1, s1) = (Threw x, [Prepare b, ?A, ?L], c1, cs2)"
      using p pass by auto
    then have w: "r = Threw x" "acts = acts1 @ [Prepare b, ?A, ?L]"
      using whole by simp_all
    show ?thesis using w learn_failed ret by auto
  next
    case rejected
    then have "(r1, a1, k1, s1) = (r3, [Prepare b, ?A, Sleep_approx_50ms] @ a3, k3, s3)"
      using p pass l2 by simp
    then have w: "r = r3" "acts = acts1 @ [Prepare b, ?A, Sleep_approx_50ms] @ a3" "c' = k3" "cs' = s3"
      using whole by simp_all
    show ?thesis using w rejected l2 ret by simp
  next
    case other
    then obtain x where "(r1, a1, k1, s1) = (x, [Prepare b, ?A], c1, cs2)" "\<forall>bd. x \<noteq> Returned bd"
      using p pass by auto
    then have w: "r = x" "acts = acts1 @ [Prepare b, ?A]" "\<forall>bd. r \<noteq> Returned bd"
      using whole by simp_all
    show ?thesis using w other ret by simp
  qed
qed


lemma prepare_unfinished:
  "prepare_ballot three_replicas (prepare_replies round_unfinished) =
     Ready \<lparr>promised = True, most_recent_promised_ballot = \<lparr>micros = 50, random_bits = 1\<rparr>,
            most_recent_proposal = Some \<lparr>ballot = \<lparr>micros = 50, random_bits = 1\<rparr>, update = 42\<rparr>,
            most_recent_commit = Some \<lparr>ballot = \<lparr>micros = 40, random_bits = 2\<rparr>, update = 41\<rparr>,
            committed_ballots_by_replica =
              [(1, \<lparr>micros = 40, random_bits = 2\<rparr>), (2, \<lparr>micros = 40, random_bits = 2\<rparr>)],
            data = None\<rparr>"
  by code_simp

lemma accept_unfinished:
  "accept_proposal three_replicas False (accept_replies round_unfinished) = Ready True"
  by code_simp

lemma run_unfinished:
  "begin_and_repair_paxos real_collaborators three_replicas True slow_clock 0
     [round_unfinished, round_finished]
   = (Returned (\<lparr>micros = 150, random_bits = 8\<rparr>, None),
      [Prepare \<lparr>micros = 100, random_bits = 9\<rparr>,
       Accept \<lparr>ballot = \<lparr>micros = 100, random_bits = 9\<rparr>, update = 42\<rparr> False,
       Learn \<lparr>ballot = \<lparr>micros = 100, random_bits = 9\<rparr>, update = 42\<rparr> False,
       Prepare \<lparr>micros = 150, random_bits = 8\<rparr>],
      0, \<lparr>new_timestamps = [200], last_timestamp_micros = 150\<rparr>)"
  by code_simp

lemma first_timestamp:
  "get_timestamp_for_paxos real_collaborators slow_clock 0
     = (100, \<lparr>new_timestamps = [150, 200], last_timestamp_micros = 100\<rparr>)"
  by code_simp

lemma rest_finished:
  "begin_and_repair_loop real_collaborators three_replicas
     \<lparr>new_timestamps = [150, 200], last_timestamp_micros = 100\<rparr> 51 0 [round_finished]
   = (Returned (\<lparr>micros = 150, random_bits = 8\<rparr>, None),
      [Prepare \<lparr>micros = 150, random_bits = 8\<rparr>], 0,
      \<lparr>new_timestamps = [200], last_timestamp_micros = 150\<rparr>)"
  by code_simp

text \<open>
  Claim C1. (1) When the prepare round resolves with a promised summary, that summary
  holds the newest accepted proposal and the newest commit among the promises collected
  up to then. (2) Take any pass of \<^verbatim>\<open>begin_and_repair_paxos\<close>, reached after the passes
  \<open>pre\<close> went round the loop, whose prepare is promised with an accepted proposal \<open>p\<close>
  newer than the newest commit known (or with no commit known). Then the actions of the
  whole call go on, right after the prepare under the new ballot \<open>b\<close>, with the accept
  of \<open>p\<close>'s update under \<open>b\<close> with \<open>timeout_if_partially_accepted = False\<close>; if it is
  accepted the learn of the same proposal follows, and when the learn succeeds the call
  continues with the next pass, with the same number of contentions and a least
  timestamp after the promised ballot; if it is rejected the call counts a contention,
  sleeps and continues with the next pass; whatever ballot the call returns is returned
  by a later pass. (3) A ballot that the call returns is the ballot of a pass, the last
  to act, that was promised and whose summary had no accepted proposal newer than its
  newest commit.
\<close>

theorem begin_and_repair_paxos_completes_in_progress:
  "(prepare_ballot h rs = Ready s \<and> promised s \<longrightarrow>
      (\<exists>pre post. rs = pre @ post \<and> summarises pre s
         \<and> length (committed_ballots_by_replica s) = prh_required_participants h))
   \<and> (loop_after C h cs 0 c0 pre = Some (cs1, mn1, c1, acts1)
      \<and> \<not> now_after_cas_timeout e
      \<and> get_timestamp_for_paxos C cs1 mn1 = (bm, cs2)
      \<and> b = get_random_time_UUID_from_micros bm (uuid_random e)
      \<and> prepare_ballot h (prepare_replies e) = Ready summary \<and> promised summary
      \<and> most_recent_proposal summary = Some p
      \<and> (\<forall>cm. most_recent_commit summary = Some cm
             \<longrightarrow> timestamp (ballot cm) < timestamp (ballot p))
      \<and> begin_and_repair_paxos C h True cs c0 (pre @ e # post) = (r, acts, c', cs') \<longrightarrow>
       (\<exists>rest. acts = acts1 @ [Prepare b, Accept \<lparr>ballot = b, update = update p\<rparr> False] @ rest)
     \<and> (accept_proposal h False (accept_replies e) = Ready True \<longrightarrow>
          (\<exists>rest. acts = acts1 @ [Prepare b, Accept \<lparr>ballot = b, update = update p\<rparr> False,
                                   Learn \<lparr>ballot = b, update = update p\<rparr> False] @ rest))
     \<and> (accept_proposal h False (accept_replies e) = Ready True \<and> learn_outcome e = None \<longrightarrow>
          (r, acts, c', cs')
            = (case begin_and_repair_loop C h cs2
                      (micros_timestamp (most_recent_promised_ballot summary) + 1) c1 post of
                 (r2, a2, c2, cs3) \<Rightarrow>
                   (r2, acts1 @ [Prepare b, Accept \<lparr>ballot = b, update = update p\<rparr> False,
                                 Learn \<lparr>ballot = b, update = update p\<rparr> False] @ a2, c2, cs3)))
     \<and> (accept_proposal h False (accept_replies e) = Ready False \<longrightarrow>
          (r, acts, c', cs')
            = (case begin_and_repair_loop C h cs2
                      (micros_timestamp (most_recent_promised_ballot summary) + 1) (c1 + 1) post of
                 (r2, a2, c2, cs3) \<Rightarrow>
                   (r2, acts1 @ [Prepare b, Accept \<lparr>ballot = b, update = update p\<rparr> False,
                                 Sleep_approx_50ms] @ a2, c2, cs3)))
     \<and> (\<forall>bd. r = Returned bd \<longrightarrow>
          (\<exists>c2. fst (begin_and_repair_loop C h cs2
                       (micros_timestamp (most_recent_promised_ballot summary) + 1) c2 post)
                  = Returned bd)))
   \<and> (begin_and_repair_paxos C h supports cs c0 es = (Returned (b', d), acts', c'', cs'') \<longrightarrow>
       (\<exists>pre' e' post' cs3 mn3 acts3 bm' summary'.
          es = pre' @ e' # post'
          \<and> loop_after C h cs 0 c0 pre' = Some (cs3, mn3, c'', acts3)
          \<and> \<not> now_after_cas_timeout e'
          \<and> get_timestamp_for_paxos C cs3 mn3 = (bm', cs'')
          \<and> b' = get_random_time_UUID_from_micros bm' (uuid_random e')
          \<and> prepare_ballot h (prepare_replies e') = Ready summary' \<and> promised summary'
          \<and> (\<forall>q. most_recent_proposal summary' = Some q \<longrightarrow>
                (\<exists>cm. most_recent_commit summary' = Some cm
                   \<and> \<not> timestamp (ballot cm) < timestamp (ballot q)))
          \<and> d = data summary'
          \<and> (acts' = acts3 @ [Prepare b']
             \<or> acts' = acts3 @ [Prepare b', Repair_commit (most_recent_commit summary')
                                     (replicas_missing_most_recent_commit C summary' b')])))"
proof -
  have "begin_and_repair_paxos C h supports cs c0 es = (Returned (b', d), acts', c'', cs'') \<Longrightarrow>
        begin_and_repair_loop C h cs 0 c0 es = (Returned (b', d), acts', c'', cs'')"
    by (simp add: begin_and_repair_paxos_def split: if_splits)
  then have c3: "begin_and_repair_paxos C h supports cs c0 es = (Returned (b', d), acts', c'', cs'') \<longrightarrow>
       (\<exists>pre' e' post' cs3 mn3 acts3 bm' summary'.
          es = pre' @ e' # post'
          \<and> loop_after C h cs 0 c0 pre' = Some (cs3, mn3, c'', acts3)
          \<and> \<not> now_after_cas_timeout e'
          \<and> get_timestamp_for_paxos C cs3 mn3 = (bm', cs'')
          \<and> b' = get_random_time_UUID_from_micros bm' (uuid_random e')
          \<and> prepare_ballot h (prepare_replies e') = Ready summary' \<and> promised summary'
          \<and> (\<forall>q. most_recent_proposal summary' = Some q \<longrightarrow>
                (\<exists>cm. most_recent_commit summary' = Some cm
                   \<and> \<not> timestamp (ballot cm) < timestamp (ballot q)))
          \<and> d = data summary'
          \<and> (acts' = acts3 @ [Prepare b']
             \<or> acts' = acts3 @ [Prepare b', Repair_commit (most_recent_commit summary')
                                     (replicas_missing_most_recent_commit C summary' b')]))"
    using loop_returns_pass [of C h cs 0 c0 es b' d acts' c'' cs'']
    unfolding unfinished_none_iff by blast
  have c1: "prepare_ballot h rs = Ready s \<and> promised s \<longrightarrow>
      (\<exists>pre post. rs = pre @ post \<and> summarises pre s
         \<and> length (committed_ballots_by_replica s) = prh_required_participants h)"
    using prepare_ballot_summarises [of h rs s] by blast
  show ?thesis
    using c1 c3 paxos_pass_completes [of C h cs c0 pre cs1 mn1 c1 acts1 e bm cs2 b summary p post r acts c' cs']
    by blast
qed


theorem begin_and_repair_paxos_completes_in_progress_witness:
  "begin_and_repair_paxos real_collaborators three_replicas True slow_clock 0
     [round_unfinished, round_finished]
   = (Returned (\<lparr>micros = 150, random_bits = 8\<rparr>, None),
      [Prepare \<lparr>micros = 100, random_bits = 9\<rparr>,
       Accept \<lparr>ballot = \<lparr>micros = 100, random_bits = 9\<rparr>, update = 42\<rparr> False,
       Learn \<lparr>ballot = \<lparr>micros = 100, random_bits = 9\<rparr>, update = 42\<rparr> False,
       Prepare \<lparr>micros = 150, random_bits = 8\<rparr>],
      0, \<lparr>new_timestamps = [200], last_timestamp_micros = 150\<rparr>)
   \<and> (\<exists>pre post. prepare_replies round_unfinished = pre @ post
       \<and> summarises pre
            \<lparr>promised = True, most_recent_promised_ballot = \<lparr>micros = 50, random_bits = 1\<rparr>,
             most_recent_proposal = Some \<lparr>ballot = \<lparr>micros = 50, random_bits = 1\<rparr>, update = 42\<rparr>,
             most_recent_commit = Some \<lparr>ballot = \<lparr>micros = 40, random_bits = 2\<rparr>, update = 41\<rparr>,
             committed_ballots_by_replica =
               [(1, \<lparr>micros = 40, random_bits = 2\<rparr>), (2, \<lparr>micros = 40, random_bits = 2\<rparr>)],
             data = None\<rparr>)
   \<and> (\<exists>c2. fst (begin_and_repair_loop real_collaborators three_replicas
                   \<lparr>new_timestamps = [150, 200], last_timestamp_micros = 100\<rparr> 51 c2
                   [round_finished])
             = Returned (\<lparr>micros = 150, random_bits = 8\<rparr>, None))
   \<and> (\<exists>pre' e' post' cs3 mn3 acts3 bm' summary'.
         [round_unfinished, round_finished] = pre' @ e' # post'
         \<and> loop_after real_collaborators three_replicas slow_clock 0 0 pre'
              = Some (cs3, mn3, 0, acts3)
         \<and> get_timestamp_for_paxos real_collaborators cs3 mn3
              = (bm', \<lparr>new_timestamps = [200], last_timestamp_micros = 150\<rparr>)
         \<and> \<lparr>micros = 150, random_bits = 8\<rparr>
              = get_random_time_UUID_from_micros bm' (uuid_random e')
         \<and> prepare_ballot three_replicas (prepare_replies e') = Ready summary'
         \<and> promised summary'
         \<and> (\<forall>q. most_recent_proposal summary' = Some q \<longrightarrow>
               (\<exists>cm. most_recent_commit summary' = Some cm
                  \<and> \<not> timestamp (ballot cm) < timestamp (ballot q))))"
proof -
  let ?S = "\<lparr>promised = True, most_recent_promised_ballot = \<lparr>micros = 50, random_bits = 1\<rparr>,
             most_recent_proposal = Some \<lparr>ballot = \<lparr>micros = 50, random_bits = 1\<rparr>, update = 42\<rparr>,
             most_recent_commit = Some \<lparr>ballot = \<lparr>micros = 40, random_bits = 2\<rparr>, update = 41\<rparr>,
             committed_ballots_by_replica =
               [(1, \<lparr>micros = 40, random_bits = 2\<rparr>), (2, \<lparr>micros = 40, random_bits = 2\<rparr>)],
             data = None\<rparr>"
  let ?acts = "[Prepare \<lparr>micros = 100, random_bits = 9\<rparr>,
          Accept \<lparr>ballot = \<lparr>micros = 100, random_bits = 9\<rparr>, update = 42\<rparr> False,
          Learn \<lparr>ballot = \<lparr>micros = 100, random_bits = 9\<rparr>, update = 42\<rparr> False,
          Prepare \<lparr>micros = 150, random_bits = 8\<rparr>]"
  have newer: "\<forall>cm. most_recent_commit ?S = Some cm \<longrightarrow>
      timestamp (ballot cm) < timestamp (ballot \<lparr>ballot = \<lparr>micros = 50, random_bits = 1\<rparr>, update = 42\<rparr>)"
    by (simp add: timestamp_def)
  have b: "\<lparr>micros = 100, random_bits = 9\<rparr>
      = get_random_time_UUID_from_micros 100 (uuid_random round_unfinished)"
    by code_simp
  have nt: "\<not> now_after_cas_timeout round_unfinished" by (simp add: round_unfinished_def)
  have la: "loop_after real_collaborators three_replicas slow_clock 0 0 [] = Some (slow_clock, 0, 0, [])"
    by simp
  have mn: "micros_timestamp (most_recent_promised_ballot ?S) + 1 = 51" by code_simp
  have p: "promised ?S" "most_recent_proposal ?S = Some \<lparr>ballot = \<lparr>micros = 50, random_bits = 1\<rparr>, update = 42\<rparr>"
    by simp_all
  show ?thesis
    using begin_and_repair_paxos_completes_in_progress
      [where h = three_replicas and rs = "prepare_replies round_unfinished" and s = ?S
        and C = real_collaborators and cs = slow_clock and ?c0.0 = 0 and pre = "[]"
        and ?cs1.0 = slow_clock and ?mn1.0 = 0 and ?c1.0 = 0 and ?acts1.0 = "[]"
        and e = round_unfinished and bm = 100
        and ?cs2.0 = "\<lparr>new_timestamps = [150, 200], last_timestamp_micros = 100\<rparr>"
        and b = "\<lparr>micros = 100, random_bits = 9\<rparr>" and summary = ?S
        and p = "\<lparr>ballot = \<lparr>micros = 50, random_bits = 1\<rparr>, update = 42\<rparr>"
        and post = "[round_finished]"
        and r = "Returned (\<lparr>micros = 150, random_bits = 8\<rparr>, None)" and acts = ?acts
        and c' = 0 and cs' = "\<lparr>new_timestamps = [200], last_timestamp_micros = 150\<rparr>"
        and supports = True and es = "[round_unfinished, round_finished]"
        and b' = "\<lparr>micros = 150, random_bits = 8\<rparr>" and d = None and acts' = ?acts
        and c'' = 0 and cs'' = "\<lparr>new_timestamps = [200], last_timestamp_micros = 150\<rparr>"]
      prepare_unfinished accept_unfinished run_unfinished first_timestamp newer b nt la mn p
    apply (simp only: append_Nil simp_thms)
    apply (intro conjI)
     apply blast+
    done
qed

subsection \<open>The ballot of a retry after a rejected prepare\<close>

text \<open>
  Claim C5 asks that the ballot of the retry postdates the ballot a replica rejected the
  prepare with. The loop takes the least timestamp for the next ballot from the summary
  only after the test for a rejected prepare, so a rejection leaves it as it was. Here
  the first prepare, with a ballot of time 100, is rejected by a replica that has promised
  a ballot of time 1000; the wall clock reads 150 at the retry, and the retry's ballot has
  time 150, which is not after 1000.
\<close>

theorem begin_and_repair_paxos_stale_retry:
  "begin_and_repair_paxos real_collaborators three_replicas True slow_clock 0
     [round_rejected, round_promised]
   = (Returned (\<lparr>micros = 150, random_bits = 8\<rparr>, None),
      [Prepare \<lparr>micros = 100, random_bits = 7\<rparr>, Sleep_approx_50ms,
       Prepare \<lparr>micros = 150, random_bits = 8\<rparr>],
      1, \<lparr>new_timestamps = [200], last_timestamp_micros = 150\<rparr>)
   \<and> prepare_ballot three_replicas (prepare_replies round_rejected) =
     Ready \<lparr>promised = False, most_recent_promised_ballot = \<lparr>micros = 1000, random_bits = 3\<rparr>,
            most_recent_proposal = None, most_recent_commit = None,
            committed_ballots_by_replica = [], data = None\<rparr>
   \<and> micros_timestamp \<lparr>micros = 150, random_bits = 8\<rparr>
       < micros_timestamp \<lparr>micros = 1000, random_bits = 3\<rparr> + 1"
  by code_simp

subsection \<open>Digest resolution\<close>








lemma speculate_requests:
  "snd (speculate ex r) = []
   \<or> snd (speculate ex r) = [Digest_request (last (ex_targets ex))]
   \<or> snd (speculate ex r) = [Data_request (last (ex_targets ex)) True]"
  by (simp add: speculate_def)












text \<open>
  The timer of the speculating executor sends at most one request, a data or a digest
  request to the last target; the other executors have no timer.
\<close>

lemma speculation_step:
  assumes "speculation_inv ex st"
  shows "speculation_inv ex (executor_step L ex ev st)"
proof (cases ev)
  case (Resolver_event re)
  then show ?thesis using assms by (simp add: executor_step_def speculation_inv_def)
next
  case Speculate_timer
  show ?thesis
  proof (cases "run_timer_armed st")
    case False
    then show ?thesis using assms Speculate_timer by (simp add: executor_step_def)
  next
    case True
    then have e: "run_speculated st = []" "kind ex = Speculating"
      using assms by (simp_all add: speculation_inv_def)
    show ?thesis
      using speculate_requests [of ex "run_resolver st"] True e Speculate_timer
      by (auto simp: executor_step_def speculation_inv_def split_beta)
  qed
qed

lemma speculation_fold:
  "speculation_inv ex st \<Longrightarrow> speculation_inv ex (foldl (\<lambda>st ev. executor_step L ex ev st) st evs)"
  by (induction evs arbitrary: st) (simp_all add: speculation_step)













subsection \<open>Reconciliation\<close>




lemma rr_none_not_deliverable: "rr_opt res = None \<Longrightarrow> deliverable ex res = None"
  by (simp add: deliverable_def)

lemma reconcile_retries:
  "resolved a = Inr res \<Longrightarrow> deliverable ex res = None \<Longrightarrow>
   reconcile Q ex cmd (a # ats) =
     (fst (reconcile Q ex (retry_command Q cmd res) ats),
      map (Mutation_data_request cmd)
        (ex_targets (adjust_targets_for_reconciliation ex)) @ Count_read_retry
        # snd (reconcile Q ex (retry_command Q cmd res) ats))"
  by (simp add: Let_def split: prod.splits)

lemma reconcile_delivers:
  assumes "resolved a = Inr res" "deliverable ex res = Some rr"
  shows "reconcile Q ex cmd (a # ats) =
     (let r = to_data_query_result ex rr (row_limit (ex_cmd ex)) (partition_limit cmd);
          requests = map (Mutation_data_request cmd)
        (ex_targets (adjust_targets_for_reconciliation ex));
          writes = fst (schedule_repair (get_diffs_for_repair res) (ex_cl ex) (repair_result a))
      in case snd (schedule_repair (get_diffs_for_repair res) (ex_cl ex) (repair_result a)) of
           None \<Rightarrow> (Ready r, requests @ writes @ [Repair_awaited, Result_set_value r, On_read_resolved])
         | Some (mutation_write_timeout_exception c rc bf ty) \<Rightarrow>
             (Failed (read_timeout_exception (ex_cl ex) ((ex_block_for ex + 2 ^ 64 - 1) mod 2 ^ 64)
                        (ex_block_for ex) True),
              requests @ writes
                @ [Result_set_exception (read_timeout_exception (ex_cl ex)
                     ((ex_block_for ex + 2 ^ 64 - 1) mod 2 ^ 64) (ex_block_for ex) True),
                   On_read_resolved])
         | Some e \<Rightarrow> (Failed e, requests @ writes @ [Result_set_exception e, On_read_resolved]))"
  using assms
  by (simp add: Let_def split: prod.splits option.splits exn.splits)


lemma reconcile_fails:
  "resolved a = Inl e \<Longrightarrow>
   reconcile Q ex cmd (a # ats) =
     (Failed e, map (Mutation_data_request cmd)
        (ex_targets (adjust_targets_for_reconciliation ex))
                  @ [Result_set_exception e, On_read_resolved])"
  by simp


lemma reconcile_value_after_repair:
  "reconcile Q ex cmd ats = (p, acts) \<Longrightarrow> Result_set_value r \<in> set acts \<Longrightarrow>
   p = Ready r
   \<and> (\<exists>pre a res. a \<in> set ats \<and> resolved a = Inr res
        \<and> acts = pre @ repair_writes ex res @ [Repair_awaited, Result_set_value r, On_read_resolved]
        \<and> (\<forall>r'. Result_set_value r' \<notin> set pre)
        \<and> (get_diffs_for_repair res \<noteq> [] \<longrightarrow> repair_result a = None))"
proof (induction ats arbitrary: cmd acts p)
  case Nil
  then show ?case by auto
next
  case (Cons a ats)
  let ?req = "map (Mutation_data_request cmd)
        (ex_targets (adjust_targets_for_reconciliation ex))"
  have noreq: "\<And>r'. Result_set_value r' \<notin> set ?req" by auto
  show ?case
  proof (cases "resolved a")
    case (Inl e)
    with Cons.prems show ?thesis unfolding reconcile_fails [OF Inl] by auto
  next
    case (Inr res)
    show ?thesis
    proof (cases "deliverable ex res")
      case None
      obtain p' acts' where rec: "reconcile Q ex (retry_command Q cmd res) ats = (p', acts')"
        by (cases "reconcile Q ex (retry_command Q cmd res) ats")
      from Cons.prems(1) rec have pa: "p = p'" "acts = ?req @ Count_read_retry # acts'"
        unfolding reconcile_retries [OF Inr None] by simp_all
      with Cons.prems(2) have "Result_set_value r \<in> set acts'" by auto
      then have "p' = Ready r
         \<and> (\<exists>pre a res. a \<in> set ats \<and> resolved a = Inr res
            \<and> acts' = pre @ repair_writes ex res @ [Repair_awaited, Result_set_value r, On_read_resolved]
            \<and> (\<forall>r'. Result_set_value r' \<notin> set pre)
            \<and> (get_diffs_for_repair res \<noteq> [] \<longrightarrow> repair_result a = None))"
        by (rule Cons.IH [OF rec])
      then obtain pre a' res' where
        *: "p' = Ready r" "a' \<in> set ats" "resolved a' = Inr res'"
        "acts' = pre @ repair_writes ex res' @ [Repair_awaited, Result_set_value r, On_read_resolved]"
        "\<forall>r'. Result_set_value r' \<notin> set pre"
        "get_diffs_for_repair res' \<noteq> [] \<longrightarrow> repair_result a' = None"
        by blast
      have "acts = (?req @ Count_read_retry # pre) @ repair_writes ex res'
                 @ [Repair_awaited, Result_set_value r, On_read_resolved]"
        using pa(2) *(4) by simp
      moreover have "\<forall>r'. Result_set_value r' \<notin> set (?req @ Count_read_retry # pre)"
        using *(5) by auto
      moreover have "a' \<in> set (a # ats)" using *(2) by simp
      ultimately show ?thesis using pa(1) *(1,3,6) by blast
    next
      case (Some rr)
      let ?r = "to_data_query_result ex rr (row_limit (ex_cmd ex)) (partition_limit cmd)"
      from Cons.prems
      have "p = Ready ?r \<and> r = ?r
          \<and> acts = ?req @ repair_writes ex res @ [Repair_awaited, Result_set_value r, On_read_resolved]
          \<and> (get_diffs_for_repair res \<noteq> [] \<longrightarrow> repair_result a = None)"
        unfolding reconcile_delivers [OF Inr Some]
        by (auto simp: Let_def schedule_repair_def repair_writes_def
            split: option.splits exn.splits if_splits)
      with Inr noreq show ?thesis by (intro conjI exI [of _ ?req] exI [of _ a] exI [of _ res]) auto
    qed
  qed
qed

text \<open>
  Claim C7. Whatever the rounds of reconciliation are, the result promise receives a
  value only as the last step but one of the actions, right after the future of
  \<^verbatim>\<open>schedule_repair\<close> for the diffs of the delivering round has resolved successfully,
  and the repair writes for those diffs (if there are any) are issued just before; no
  value is set earlier. A digest mismatch hands the read's result promise to
  \<^verbatim>\<open>reconcile\<close>, on the targets or on the local ones among them.
\<close>

theorem reconciled_result_after_repair:
  "(reconcile Q ex cmd ats = (p, acts) \<and> Result_set_value r \<in> set acts \<longrightarrow>
      p = Ready r
      \<and> (\<exists>pre a res. a \<in> set ats \<and> resolved a = Inr res
           \<and> acts = pre @ repair_writes ex res
                       @ [Repair_awaited, Result_set_value r, On_read_resolved]
           \<and> (\<forall>r'. Result_set_value r' \<notin> set pre)
           \<and> (get_diffs_for_repair res \<noteq> [] \<longrightarrow> repair_result a = None)))
   \<and> (cl_promise rs = Ready dr \<and> \<not> drr_digests_match dr \<longrightarrow>
      (\<exists>T. set T \<subseteq> set (ex_targets ex)
         \<and> on_has_cl L Q ex rs ats
             = (fst (reconcile Q (ex\<lparr>ex_targets := T\<rparr>) (ex_cmd ex) ats),
                snd (reconcile Q (ex\<lparr>ex_targets := T\<rparr>) (ex_cmd ex) ats), False)))"
proof -
  let ?T = "if is_datacenter_local L (ex_cl ex) \<and> read_timestamp (ex_cmd ex) \<ge> 0
               \<and> \<bar>last_modified rs - read_timestamp (ex_cmd ex)\<bar>
                    \<le> int (write_request_timeout_in_ms ex * 1000)
            then filter (is_local_endpoint L) (ex_targets ex) else ex_targets ex"
  have "on_has_cl L Q ex rs ats
             = (fst (reconcile Q (ex\<lparr>ex_targets := ?T\<rparr>) (ex_cmd ex) ats),
                snd (reconcile Q (ex\<lparr>ex_targets := ?T\<rparr>) (ex_cmd ex) ats), False)"
    if "cl_promise rs = Ready dr" "\<not> drr_digests_match dr"
    using that unfolding on_has_cl_def Let_def by (simp add: case_prod_beta)
  moreover have "set ?T \<subseteq> set (ex_targets ex)" by simp
  ultimately have "\<exists>T. set T \<subseteq> set (ex_targets ex)
         \<and> on_has_cl L Q ex rs ats
             = (fst (reconcile Q (ex\<lparr>ex_targets := T\<rparr>) (ex_cmd ex) ats),
                snd (reconcile Q (ex\<lparr>ex_targets := T\<rparr>) (ex_cmd ex) ats), False)"
    if "cl_promise rs = Ready dr" "\<not> drr_digests_match dr"
    using that by blast
  then show ?thesis
    using reconcile_value_after_repair [of Q ex cmd ats p acts r] by blast
qed

lemma two_rounds_run:
  "reconcile limits_64 quorum_read (ex_cmd quorum_read) two_rounds
   = (Ready \<lparr>payload = 77, result_digest = 0\<rparr>,
      [Mutation_data_request (ex_cmd quorum_read) 1, Mutation_data_request (ex_cmd quorum_read) 2,
       Count_read_retry,
       Mutation_data_request ((ex_cmd quorum_read)\<lparr>row_limit := 21\<rparr>) 1,
       Mutation_data_request ((ex_cmd quorum_read)\<lparr>row_limit := 21\<rparr>) 2,
       Repair_write [(2, 5)] QUORUM, Repair_awaited,
       Result_set_value \<lparr>payload = 77, result_digest = 0\<rparr>, On_read_resolved])"
  by (simp add: two_rounds_def incomplete_resolution_def complete_resolution_def quorum_read_def
      deliverable_def retry_command_def limit_x_def limits_64_def schedule_repair_def Let_def
      adjust_targets_for_reconciliation_def)

theorem reconciled_result_after_repair_witness:
  "\<exists>pre a res. a \<in> set two_rounds \<and> resolved a = Inr res
     \<and> snd (reconcile limits_64 quorum_read (ex_cmd quorum_read) two_rounds)
         = pre @ repair_writes quorum_read res
               @ [Repair_awaited, Result_set_value \<lparr>payload = 77, result_digest = 0\<rparr>,
                  On_read_resolved]
     \<and> (\<forall>r'. Result_set_value r' \<notin> set pre)
     \<and> (get_diffs_for_repair res \<noteq> [] \<longrightarrow> repair_result a = None)"
  using reconciled_result_after_repair
    [of limits_64 quorum_read "ex_cmd quorum_read" two_rounds
      "Ready \<lparr>payload = 77, result_digest = 0\<rparr>"
      "snd (reconcile limits_64 quorum_read (ex_cmd quorum_read) two_rounds)"
      "\<lparr>payload = 77, result_digest = 0\<rparr>"]
  by (simp add: two_rounds_run)









subsection \<open>Write response handlers\<close>










lemma signal_sleepers_append [simp]:
  "signal_sleepers (sl @ [(rid', k)]) rid
     = signal_sleepers sl rid + (if rid' = rid \<and> k = Resume_signal then 1 else 0)"
  by (simp add: signal_sleepers_def)






lemma signal_cases:
  "signal d nr (h, s) =
     (if cl_achieved h \<or> cl_acks h + nr < total_block_for h
      then (h\<lparr>cl_acks := cl_acks h + nr\<rparr>, s)
      else if d
      then (h\<lparr>cl_acks := cl_acks h + nr, cl_achieved := True\<rparr>,
            s\<lparr>sleeping := sleeping s @ [(h_id h, Resume_signal)]\<rparr>)
      else if need_throttle_writes s
      then (h\<lparr>cl_acks := cl_acks h + nr, cl_achieved := True, throttled := True\<rparr>,
            s\<lparr>throttled_writes := throttled_writes s @ [h_id h]\<rparr>)
      else (h\<lparr>cl_acks := cl_acks h + nr, cl_achieved := True, throttled := False,
              ready := set_value () (ready h)\<rparr>,
            s\<lparr>background_write_bytes := background_write_bytes s + int (mutation_size h)\<rparr>))"
  by (simp add: signal_def delay_def run_resume_def handler_unthrottle_def Let_def)


lemma core_inv_cong:
  assumes "objects s' = objects s" "sleeping s' = sleeping s"
    "throttled_writes s' = throttled_writes s" "destroyed s' = destroyed s"
  shows "core_inv s' = core_inv s"
  using assms by (simp add: core_inv_def)




















lemma signal_fields:
  "h_id (fst (signal d nr (h, s))) = h_id h"
  "response_handlers (snd (signal d nr (h, s))) = response_handlers s"
  "objects (snd (signal d nr (h, s))) = objects s"
  "destroyed (snd (signal d nr (h, s))) = destroyed s"
  "assertion_failed (snd (signal d nr (h, s))) = assertion_failed s"
  "view_update_backlogs (snd (signal d nr (h, s))) = view_update_backlogs s"
  "h_cl (fst (signal d nr (h, s))) = h_cl h"
  "h_targets (fst (signal d nr (h, s))) = h_targets h"
  "all_failures (fst (signal d nr (h, s))) = all_failures h"
  by (simp_all add: signal_cases)



lemma signal_from_fields:
  "h_id (fst (signal_from L d from (h, s))) = h_id h"
  "response_handlers (snd (signal_from L d from (h, s))) = response_handlers s"
  "objects (snd (signal_from L d from (h, s))) = objects s"
  "destroyed (snd (signal_from L d from (h, s))) = destroyed s"
  "assertion_failed (snd (signal_from L d from (h, s))) = assertion_failed s"
  "view_update_backlogs (snd (signal_from L d from (h, s))) = view_update_backlogs s"
  "h_cl (fst (signal_from L d from (h, s))) = h_cl h"
  "h_targets (fst (signal_from L d from (h, s))) = h_targets h"
  "all_failures (fst (signal_from L d from (h, s))) = all_failures h"
  by (simp_all add: signal_from_def signal_fields)


lemma response_eq:
  "response L d from (h, s) =
     (if from \<in> set (h_targets h)
      then (swap_remove from (h_targets h) = [],
            (fst (signal_from L d from (h, s)))\<lparr>h_targets := swap_remove from (h_targets h)\<rparr>,
            snd (signal_from L d from (h, s)))
      else (h_targets h = [], h, s))"
  by (simp add: response_def Let_def split_beta signal_from_fields)


lemma response_fields:
  "h_id (fst (snd (response L d from (h, s)))) = h_id h"
  "response_handlers (snd (snd (response L d from (h, s)))) = response_handlers s"
  "assertion_failed (snd (snd (response L d from (h, s)))) = assertion_failed s"
  "view_update_backlogs (snd (snd (response L d from (h, s)))) = view_update_backlogs s"
  by (simp_all add: response_eq signal_from_fields)


lemma failure_cases:
  "failure L d from count err msg (h, s) =
     (if waited_for L h from
      then if total_endpoints h < total_block_for h + (failed h + count)
           then (True, h\<lparr>failed := failed h + count, h_error := err, message := msg\<rparr>,
                 if d then s\<lparr>sleeping := sleeping s @ [(h_id h, Resume_failure)]\<rparr> else s)
           else (False, h\<lparr>failed := failed h + count\<rparr>, s)
      else (False, h, s))"
  by (simp add: failure_def delay_def run_resume_def Let_def)




lemma failure_sleeping:
  "set (sleeping (snd (snd (failure L d from count err msg (h, s)))))
     \<subseteq> (if fst (failure L d from count err msg (h, s))
         then insert (h_id h, Resume_failure) (set (sleeping s)) else set (sleeping s))"
  by (auto simp: failure_cases)














































end
